theory Spec2Isabelle
  imports Complex_Main
begin

section \<open>Numbers and exceptions\<close>

text \<open>
  Python floats are read as exact reals: \<open>math.sin\<close>, \<open>math.cos\<close> and \<open>math.hypot\<close> are
  the real functions, and rounding is not modelled. Python integers (score, lives, level,
  hit counts, the field size) are \<open>int\<close>. An exception is a value \<open>Inl e\<close> of the result.
\<close>

datatype error = ZeroDivisionError | ValueError | IndexError

definition ebind :: "error + 'a \<Rightarrow> ('a \<Rightarrow> error + 'b) \<Rightarrow> error + 'b" where
  "ebind m f = (case m of Inl e \<Rightarrow> Inl e | Inr x \<Rightarrow> f x)"

definition truediv :: "real \<Rightarrow> real \<Rightarrow> error + real" where
  \<comment> \<open>\<open>a / b\<close> on Python floats\<close>
  "truediv a b = (if b = 0 then Inl ZeroDivisionError else Inr (a / b))"

definition hypot :: "real \<Rightarrow> real \<Rightarrow> real" where
  "hypot x y = sqrt (x ^ 2 + y ^ 2)"

definition radians :: "real \<Rightarrow> real" where
  "radians d = d * (pi / 180)"

definition atan2 :: "real \<Rightarrow> real \<Rightarrow> real" where
  \<comment> \<open>the angle of the vector \<open>(x, y)\<close>, in \<open>(-pi, pi]\<close>, and 0 for the zero vector\<close>
  "atan2 y x = Arg (Complex x y)"

definition unpack4 :: "real list \<Rightarrow> error + (real \<times> real \<times> real \<times> real)" where
  \<comment> \<open>\<open>a, b, c, d = xs\<close>\<close>
  "unpack4 xs = (case xs of [a, b, c, d] \<Rightarrow> Inr (a, b, c, d) | _ \<Rightarrow> Inl ValueError)"

definition index :: "real list \<Rightarrow> nat \<Rightarrow> error + real" where
  \<comment> \<open>\<open>xs[i]\<close> for a literal index \<open>i \<ge> 0\<close>\<close>
  "index xs i = (if i < length xs then Inr (xs ! i) else Inl IndexError)"


section \<open>The canvas\<close>

text \<open>
  The Tk canvas is the store all game objects share: it maps an item identifier to the
  item's tags, coordinate list and fill colour. Identifiers are handed out in increasing
  order and never reused. Rectangles and ovals have four coordinates, text and image items
  two; the text shown by a text item and its font are not modelled. Reading the coordinates
  or tags of an identifier that names no item gives the empty list, and changing such an
  item does nothing, as in Tk.
\<close>

record citem =
  tags :: "string list"
  xy :: "real list"
  fill :: string

record Canvas =
  cwidth :: int
  cheight :: int
  items :: "nat \<rightharpoonup> citem"
  next_id :: nat

definition Canvas_init :: "int \<Rightarrow> int \<Rightarrow> Canvas" where
  "Canvas_init w h = \<lparr>cwidth = w, cheight = h, items = Map.empty, next_id = 1\<rparr>"

definition create :: "real list \<Rightarrow> string \<Rightarrow> string list \<Rightarrow> Canvas \<Rightarrow> nat \<times> Canvas" where
  "create cs f tg cv =
     (next_id cv,
      cv\<lparr>items := (items cv)(next_id cv \<mapsto> \<lparr>tags = tg, xy = cs, fill = f\<rparr>),
         next_id := next_id cv + 1\<rparr>)"

definition create_rectangle ::
  "real \<Rightarrow> real \<Rightarrow> real \<Rightarrow> real \<Rightarrow> string \<Rightarrow> string list \<Rightarrow> Canvas \<Rightarrow> nat \<times> Canvas" where
  "create_rectangle x1 y1 x2 y2 f tg cv = create [x1, y1, x2, y2] f tg cv"

definition create_oval ::
  "real \<Rightarrow> real \<Rightarrow> real \<Rightarrow> real \<Rightarrow> string \<Rightarrow> string list \<Rightarrow> Canvas \<Rightarrow> nat \<times> Canvas" where
  "create_oval x1 y1 x2 y2 f tg cv = create [x1, y1, x2, y2] f tg cv"

definition create_text :: "real \<Rightarrow> real \<Rightarrow> string \<Rightarrow> Canvas \<Rightarrow> nat \<times> Canvas" where
  "create_text x y f cv = create [x, y] f [] cv"

definition create_image :: "real \<Rightarrow> real \<Rightarrow> Canvas \<Rightarrow> nat \<times> Canvas" where
  "create_image x y cv = create [x, y] [] [] cv"

definition delete :: "nat \<Rightarrow> Canvas \<Rightarrow> Canvas" where
  "delete i cv = cv\<lparr>items := (items cv)(i := None)\<rparr>"

definition delete_all :: "Canvas \<Rightarrow> Canvas" where
  "delete_all cv = cv\<lparr>items := Map.empty\<rparr>"

definition coords :: "Canvas \<Rightarrow> nat \<Rightarrow> real list" where
  "coords cv i = (case items cv i of None \<Rightarrow> [] | Some it \<Rightarrow> xy it)"

definition set_coords :: "nat \<Rightarrow> real list \<Rightarrow> Canvas \<Rightarrow> Canvas" where
  "set_coords i cs cv =
     (case items cv i of None \<Rightarrow> cv
      | Some it \<Rightarrow> cv\<lparr>items := (items cv)(i \<mapsto> it\<lparr>xy := cs\<rparr>)\<rparr>)"

fun shift :: "real \<Rightarrow> real \<Rightarrow> real list \<Rightarrow> real list" where
  "shift dx dy (x # y # rest) = (x + dx) # (y + dy) # shift dx dy rest"
| "shift dx dy rest = rest"

definition move :: "nat \<Rightarrow> real \<Rightarrow> real \<Rightarrow> Canvas \<Rightarrow> Canvas" where
  "move i dx dy cv = set_coords i (shift dx dy (coords cv i)) cv"

definition itemconfig_fill :: "nat \<Rightarrow> string \<Rightarrow> Canvas \<Rightarrow> Canvas" where
  "itemconfig_fill i f cv =
     (case items cv i of None \<Rightarrow> cv
      | Some it \<Rightarrow> cv\<lparr>items := (items cv)(i \<mapsto> it\<lparr>fill := f\<rparr>)\<rparr>)"

definition gettags :: "Canvas \<Rightarrow> nat \<Rightarrow> string list" where
  "gettags cv i = (case items cv i of None \<Rightarrow> [] | Some it \<Rightarrow> tags it)"

definition overlaps :: "real \<Rightarrow> real \<Rightarrow> real \<Rightarrow> real \<Rightarrow> real list \<Rightarrow> bool" where
  \<comment> \<open>Modelled from the spec: \<open>find_overlapping\<close> belongs to Tk, and the spec describes it as
      an axis-aligned box overlap test between the query rectangle and the item's bounding
      box. An item with two coordinates is taken at its anchor point.\<close>
  "overlaps x1 y1 x2 y2 cs =
     (case cs of
        [a1, b1, a2, b2] \<Rightarrow> a1 < x2 \<and> x1 < a2 \<and> b1 < y2 \<and> y1 < b2
      | [a, b] \<Rightarrow> a < x2 \<and> x1 < a \<and> b < y2 \<and> y1 < b
      | _ \<Rightarrow> False)"

definition find_overlapping :: "Canvas \<Rightarrow> real \<Rightarrow> real \<Rightarrow> real \<Rightarrow> real \<Rightarrow> nat list" where
  \<comment> \<open>the overlapping items, lowest in the display list (oldest) first\<close>
  "find_overlapping cv x1 y1 x2 y2 =
     filter (\<lambda>i. case items cv i of None \<Rightarrow> False | Some it \<Rightarrow> overlaps x1 y1 x2 y2 (xy it))
       [0 ..< next_id cv]"


section \<open>Game objects\<close>

record GameObject =
  item :: nat

subsection \<open>Brick\<close>

record Brick = GameObject +
  bwidth :: real
  bheight :: real
  hits :: int

definition COLORS :: "int \<rightharpoonup> string" where
  "COLORS = [1 \<mapsto> ''#4535AA'', 2 \<mapsto> ''#ED639E'', 3 \<mapsto> ''#8FE1A2'']"

definition COLORS_get :: "int \<Rightarrow> string" where
  \<comment> \<open>\<open>Brick.COLORS.get(hits, '#CCCCCC')\<close>\<close>
  "COLORS_get h = (case COLORS h of None \<Rightarrow> ''#CCCCCC'' | Some c \<Rightarrow> c)"

definition Brick_init :: "Canvas \<Rightarrow> real \<Rightarrow> real \<Rightarrow> int \<Rightarrow> Brick \<times> Canvas" where
  "Brick_init cv x y h =
     (let w = 75; ht = 20;
          color = COLORS_get h;
          (it, cv') = create_rectangle (x - w / 2) (y - ht / 2) (x + w / 2) (y + ht / 2)
                        color [''brick''] cv
      in (\<lparr>item = it, bwidth = w, bheight = ht, hits = h\<rparr>, cv'))"

definition hit :: "Brick \<Rightarrow> Canvas \<Rightarrow> bool \<times> Brick \<times> Canvas" where
  \<comment> \<open>returns whether the brick was destroyed, the brick and the canvas after the hit\<close>
  "hit b cv =
     (let b' = b\<lparr>hits := hits b - 1\<rparr>
      in if hits b' \<le> 0 then (True, b', delete (item b') cv)
         else (False, b', itemconfig_fill (item b') (COLORS_get (hits b')) cv))"

subsection \<open>Paddle\<close>

record Paddle = GameObject +
  pwidth :: real
  pheight :: real
  canvas_width :: int

definition Paddle_init :: "Canvas \<Rightarrow> real \<Rightarrow> real \<Rightarrow> real \<Rightarrow> real \<Rightarrow> Paddle \<times> Canvas" where
  "Paddle_init cv x y w h =
     (let (it, cv') = create_rectangle (x - w / 2) (y - h / 2) (x + w / 2) (y + h / 2)
                        ''#333333'' [''paddle''] cv
      in (\<lparr>item = it, pwidth = w, pheight = h, canvas_width = cwidth cv'\<rparr>, cv'))"

definition move_to :: "Paddle \<Rightarrow> real \<Rightarrow> Canvas \<Rightarrow> error + Canvas" where
  "move_to p x_center cv =
     (let half = pwidth p / 2;
          x1 = max 0 (x_center - half);
          x2 = min (real_of_int (canvas_width p)) (x_center + half)
      in ebind (index (coords cv (item p)) 1) (\<lambda>y1.
         ebind (index (coords cv (item p)) 3) (\<lambda>y2.
         Inr (set_coords (item p) [x1, y1, x2, y2] cv))))"

subsection \<open>Ball\<close>

record Ball = GameObject +
  radius :: real
  vx :: real
  vy :: real
  speed :: real

definition Ball_init :: "Canvas \<Rightarrow> real \<Rightarrow> real \<Rightarrow> real \<Rightarrow> real \<Rightarrow> real \<Rightarrow> Ball \<times> Canvas" where
  \<comment> \<open>\<open>angle\<close> is the value drawn by \<open>random.uniform(30, 150)\<close>\<close>
  "Ball_init cv x y r s angle =
     (let (it, cv') = create_oval (x - r) (y - r) (x + r) (y + r) ''#FFAA00'' [''ball''] cv;
          rad = radians angle
      in (\<lparr>item = it, radius = r, vx = s * cos rad, vy = - \<bar>s * sin rad\<bar>, speed = s\<rparr>, cv'))"

definition ball_move :: "Ball \<Rightarrow> Canvas \<Rightarrow> Canvas" where
  "ball_move b cv = move (item b) (vx b) (vy b) cv"

definition position :: "Ball \<Rightarrow> Canvas \<Rightarrow> real list" where
  "position b cv = coords cv (item b)"

definition bounce_x :: "Ball \<Rightarrow> Ball" where
  "bounce_x b = b\<lparr>vx := - vx b\<rparr>"

definition bounce_y :: "Ball \<Rightarrow> Ball" where
  "bounce_y b = b\<lparr>vy := - vy b\<rparr>"

definition set_speed :: "Ball \<Rightarrow> real \<Rightarrow> error + Ball" where
  "set_speed b s =
     (let mag = hypot (vx b) (vy b)
      in ebind (truediv s mag) (\<lambda>scale.
         Inr (b\<lparr>vx := vx b * scale, vy := vy b * scale, speed := s\<rparr>)))"

definition increase_speed :: "Ball \<Rightarrow> real \<Rightarrow> error + Ball" where
  "increase_speed b delta = set_speed b (speed b + delta)"


section \<open>The game\<close>

record BrickBreaker =
  width :: int
  height :: int
  canvas :: Canvas
  score :: int
  level :: int
  lives :: int
  started :: bool
  paused :: bool
  paddle :: Paddle
  ball :: Ball
  score_text :: nat
  level_text :: nat
  bricks :: "Brick list"
  instr :: nat

subsection \<open>Level system\<close>

definition range :: "int \<Rightarrow> int list" where
  "range n = [0 .. n - 1]"

definition place_brick ::
  "int \<Rightarrow> int \<Rightarrow> int \<Rightarrow> int \<Rightarrow> Brick list \<times> Canvas \<Rightarrow> Brick list \<times> Canvas" where
  \<comment> \<open>the body of the inner loop of \<open>build_level\<close>, for the field width \<open>w\<close>\<close>
  "place_brick w lvl r c acc =
     (let (bs, cv) = acc;
          cols = 8; mx = 60;
          spacing_x = (real_of_int w - 2 * mx) / cols;
          top_y = 60;
          x = mx + spacing_x * real_of_int c + spacing_x / 2;
          y = top_y + real_of_int r * 26;
          h = min 3 (1 + (r + lvl) div 2);
          (b, cv') = Brick_init cv x y h
      in (bs @ [b], cv'))"

definition build_level :: "int \<Rightarrow> BrickBreaker \<Rightarrow> BrickBreaker" where
  "build_level lvl g =
     (let cv0 = fold (\<lambda>b cv. delete (item b) cv) (bricks g) (canvas g);
          rows = min 6 (3 + lvl);
          cols = 8;
          (bs, cv) = fold (\<lambda>r acc. fold (\<lambda>c acc'. place_brick (width g) lvl r c acc')
                                       (range cols) acc)
                       (range rows) ([], cv0)
      in g\<lparr>bricks := bs, canvas := cv\<rparr>)"

subsection \<open>Input\<close>

definition paddle_center :: "BrickBreaker \<Rightarrow> error + real" where
  \<comment> \<open>\<open>(self.paddle.coords()[0] + self.paddle.coords()[2]) / 2\<close>\<close>
  "paddle_center g =
     ebind (index (coords (canvas g) (item (paddle g))) 0) (\<lambda>a.
     ebind (index (coords (canvas g) (item (paddle g))) 2) (\<lambda>b.
     Inr ((a + b) / 2)))"

definition ball_center :: "BrickBreaker \<Rightarrow> error + real" where
  \<comment> \<open>\<open>(self.ball.position()[0] + self.ball.position()[2]) / 2\<close>\<close>
  "ball_center g =
     ebind (index (position (ball g) (canvas g)) 0) (\<lambda>a.
     ebind (index (position (ball g) (canvas g)) 2) (\<lambda>b.
     Inr ((a + b) / 2)))"

definition mouse_move :: "int \<Rightarrow> BrickBreaker \<Rightarrow> error + BrickBreaker" where
  "mouse_move ex g =
     ebind (move_to (paddle g) (real_of_int ex) (canvas g)) (\<lambda>cv.
     let g1 = g\<lparr>canvas := cv\<rparr>
     in if \<not> started g1 \<and> \<not> paused g1 then
          ebind (paddle_center g1) (\<lambda>px.
          ebind (ball_center g1) (\<lambda>cx.
          let dx = px - cx
          in Inr (g1\<lparr>canvas := move (item (ball g1)) dx 0 (canvas g1)\<rparr>)))
        else Inr g1)"

definition keyboard_move :: "real \<Rightarrow> BrickBreaker \<Rightarrow> error + BrickBreaker" where
  "keyboard_move delta g =
     ebind (paddle_center g) (\<lambda>c.
     let x = c + delta
     in ebind (move_to (paddle g) x (canvas g)) (\<lambda>cv. Inr (g\<lparr>canvas := cv\<rparr>)))"

definition start_ball :: "BrickBreaker \<Rightarrow> BrickBreaker" where
  "start_ball g =
     (if \<not> started g then g\<lparr>started := True, canvas := delete (instr g) (canvas g)\<rparr> else g)"

definition toggle_pause :: "BrickBreaker \<Rightarrow> BrickBreaker" where
  "toggle_pause g = g\<lparr>paused := \<not> paused g\<rparr>"

subsection \<open>Collision\<close>

text \<open>
  \<open>check_collision\<close> reads the ball's box once and then runs three blocks in order: walls,
  paddle, bricks. Each block is a function of the box read at the start.
\<close>

definition wall_collision :: "real \<times> real \<times> real \<times> real \<Rightarrow> BrickBreaker \<Rightarrow> BrickBreaker" where
  "wall_collision bb g =
     (let (bx1, by1, bx2, by2) = bb;
          g1 = (if bx1 \<le> 0 \<or> bx2 \<ge> real_of_int (width g)
                then g\<lparr>ball := bounce_x (ball g)\<rparr> else g)
      in if by1 \<le> 0 then g1\<lparr>ball := bounce_y (ball g1)\<rparr> else g1)"

definition paddle_hit ::
  "real \<times> real \<times> real \<times> real \<Rightarrow> real \<times> real \<times> real \<times> real \<Rightarrow> real \<Rightarrow> bool" where
  \<comment> \<open>the condition of the paddle block, for the ball's box, the paddle's box and \<open>ball.vy\<close>\<close>
  "paddle_hit bb pb v =
     (let (bx1, by1, bx2, by2) = bb; (px1, py1, px2, py2) = pb
      in by2 \<ge> py1 \<and> bx2 \<ge> px1 \<and> bx1 \<le> px2 \<and> v > 0)"

definition paddle_collision ::
  "real \<times> real \<times> real \<times> real \<Rightarrow> BrickBreaker \<Rightarrow> error + BrickBreaker" where
  "paddle_collision bb g =
     ebind (unpack4 (coords (canvas g) (item (paddle g)))) (\<lambda>pb.
     let (bx1, by1, bx2, by2) = bb; (px1, py1, px2, py2) = pb
     in if paddle_hit bb pb (vy (ball g)) then
          let paddle_center = (px1 + px2) / 2;
              ball_center = (bx1 + bx2) / 2
          in ebind (truediv (ball_center - paddle_center) (pwidth (paddle g) / 2)) (\<lambda>offset.
             let angle = offset * radians 75;
                 s = speed (ball g)
             in Inr (g\<lparr>ball := (ball g)\<lparr>vx := s * sin angle, vy := - \<bar>s * cos angle\<bar>\<rparr>\<rparr>))
        else Inr g)"

fun hit_item :: "nat \<Rightarrow> Brick list \<Rightarrow> Canvas \<Rightarrow> Brick list \<times> Canvas \<times> bool option" where
  \<comment> \<open>the loop \<open>for b in self.bricks\<close>: the first brick whose item is \<open>i\<close> is hit, and removed
      from the list when destroyed; the result says whether a brick was found and, if so,
      whether it was destroyed\<close>
  "hit_item i [] cv = ([], cv, None)"
| "hit_item i (b # bs) cv =
     (if item b = i then
        (let (destroyed, b', cv') = hit b cv
         in (if destroyed then bs else b' # bs, cv', Some destroyed))
      else
        (let (bs', cv', r) = hit_item i bs cv in (b # bs', cv', r)))"

definition overlap_item :: "nat \<Rightarrow> BrickBreaker \<Rightarrow> BrickBreaker" where
  \<comment> \<open>the body of the loop \<open>for item in overlap\<close>\<close>
  "overlap_item i g =
     (if ''brick'' \<in> set (gettags (canvas g) i) then
        (case hit_item i (bricks g) (canvas g) of
           (bs', cv', Some destroyed) \<Rightarrow>
             g\<lparr>bricks := bs', canvas := cv',
               score := score g + (if destroyed then 10 else 5),
               ball := bounce_y (ball g)\<rparr>
         | (bs', cv', None) \<Rightarrow> g)
      else g)"

definition brick_collision :: "real \<times> real \<times> real \<times> real \<Rightarrow> BrickBreaker \<Rightarrow> BrickBreaker" where
  "brick_collision bb g =
     (let (bx1, by1, bx2, by2) = bb;
          overlap = find_overlapping (canvas g) bx1 by1 bx2 by2
      in fold overlap_item overlap g)"

definition check_collision :: "BrickBreaker \<Rightarrow> error + BrickBreaker" where
  "check_collision g =
     ebind (unpack4 (position (ball g) (canvas g))) (\<lambda>bb.
     ebind (paddle_collision bb (wall_collision bb g)) (\<lambda>g'.
     Inr (brick_collision bb g')))"

subsection \<open>Game loop\<close>

definition game_over :: "BrickBreaker \<Rightarrow> BrickBreaker" where
  "game_over g =
     (let w = real_of_int (width g); h = real_of_int (height g);
          (t1, cv1) = create_text (w / 2) (h / 2 - 20) ''red'' (canvas g);
          (t2, cv2) = create_text (w / 2) (h / 2 + 20) ''white'' cv1
      in g\<lparr>canvas := cv2, started := False, paused := True\<rparr>)"

definition park_ball :: "BrickBreaker \<Rightarrow> error + BrickBreaker" where
  \<comment> \<open>the statements shared by the two blocks of \<open>loop\<close>: the ball's box is set above the
      paddle's centre, \<open>started\<close> is cleared and the prompt is created\<close>
  "park_ball g =
     ebind (paddle_center g) (\<lambda>px.
     let h = real_of_int (height g); w = real_of_int (width g);
         cv1 = set_coords (item (ball g)) [px - 8, h - 60 - 8, px + 8, h - 60 + 8] (canvas g);
         (t, cv2) = create_text (w / 2) (h / 2) ''yellow'' cv1
     in Inr (g\<lparr>canvas := cv2, started := False, instr := t\<rparr>))"

definition miss :: "BrickBreaker \<Rightarrow> error + BrickBreaker \<times> bool" where
  \<comment> \<open>the block under \<open>if by2 >= self.height\<close>; the flag says that \<open>loop\<close> returned from it\<close>
  "miss g =
     (let g1 = g\<lparr>lives := lives g - 1\<rparr>
      in if lives g1 \<le> 0 then Inr (game_over g1, True)
         else ebind (park_ball g1) (\<lambda>g2. Inr (g2, False)))"

definition next_level :: "BrickBreaker \<Rightarrow> error + BrickBreaker" where
  \<comment> \<open>the block under \<open>if not self.bricks\<close>\<close>
  "next_level g =
     (let g1 = g\<lparr>level := level g + 1\<rparr>
      in ebind (increase_speed (ball g1) (8 / 10)) (\<lambda>b.
         park_ball (build_level (level g1) (g1\<lparr>ball := b\<rparr>))))"

definition loop :: "BrickBreaker \<Rightarrow> error + BrickBreaker \<times> bool" where
  \<comment> \<open>one run of \<open>loop\<close>; the flag says whether it scheduled itself again with
      \<open>root.after\<close>\<close>
  "loop g =
     (if \<not> paused g \<and> started g then
        ebind (check_collision (g\<lparr>canvas := ball_move (ball g) (canvas g)\<rparr>)) (\<lambda>g1.
        ebind (unpack4 (position (ball g1) (canvas g1))) (\<lambda>(bx1, by1, bx2, by2).
        ebind (if by2 \<ge> real_of_int (height g1) then miss g1 else Inr (g1, False))
          (\<lambda>(g2, returned).
        if returned then Inr (g2, False)
        else ebind (if bricks g2 = [] then next_level g2 else Inr g2) (\<lambda>g3.
             Inr (g3, True)))))
      else Inr (g, True))"

subsection \<open>Construction and restart\<close>

definition BrickBreaker_init :: "int \<Rightarrow> int \<Rightarrow> real \<Rightarrow> error + BrickBreaker" where
  \<comment> \<open>\<open>angle\<close> is the launch angle drawn in \<open>Ball.__init__\<close>; \<open>instr\<close> is 0, which names no
      item, until the prompt is created\<close>
  "BrickBreaker_init w h angle =
     (let cv0 = Canvas_init w h;
          (bg, cv1) = create_image 0 0 cv0;
          (pd, cv2) = Paddle_init cv1 (real_of_int w / 2) (real_of_int h - 30) 110 12;
          (bl, cv3) = Ball_init cv2 (real_of_int w / 2) (real_of_int h - 60) 8 5 angle;
          (st, cv4) = create_text 10 10 ''white'' cv3;
          (lt, cv5) = create_text (real_of_int w - 10) 10 ''white'' cv4;
          g0 = \<lparr>width = w, height = h, canvas = cv5, score = 0, level = 1, lives = 3,
                started = False, paused = False, paddle = pd, ball = bl,
                score_text = st, level_text = lt, bricks = [], instr = 0\<rparr>;
          g1 = build_level (level g0) g0;
          (ins, cv6) = create_text (real_of_int w / 2) (real_of_int h / 2) ''yellow'' (canvas g1);
          g2 = g1\<lparr>canvas := cv6, instr := ins\<rparr>
      in ebind (loop g2) (\<lambda>(g3, again). Inr g3))"

definition restart :: "real \<Rightarrow> BrickBreaker \<Rightarrow> error + BrickBreaker" where
  \<comment> \<open>\<open>self.canvas.delete("all")\<close>, then \<open>self.__init__()\<close> with its default size\<close>
  "restart angle g =
     (let g1 = g\<lparr>canvas := delete_all (canvas g)\<rparr>
      in BrickBreaker_init 720 520 angle)"

subsection \<open>Sessions\<close>

text \<open>
  A session starts with the construction of the game, for a launch angle in \<open>[30, 150]\<close>,
  and goes on with the callbacks Tk runs: the timer, pointer motion, and the keys.
\<close>

datatype event = Tick | Motion int | KeyLeft | KeyRight | KeySpace | KeyP | KeyR real

definition handle :: "event \<Rightarrow> BrickBreaker \<Rightarrow> error + BrickBreaker" where
  "handle ev g =
     (case ev of
        Tick \<Rightarrow> ebind (loop g) (\<lambda>(g', again). Inr g')
      | Motion ex \<Rightarrow> mouse_move ex g
      | KeyLeft \<Rightarrow> keyboard_move (- 30) g
      | KeyRight \<Rightarrow> keyboard_move 30 g
      | KeySpace \<Rightarrow> Inr (start_ball g)
      | KeyP \<Rightarrow> Inr (toggle_pause g)
      | KeyR angle \<Rightarrow> restart angle g)"

inductive reachable :: "BrickBreaker \<Rightarrow> bool" where
  init: "30 \<le> a \<Longrightarrow> a \<le> 150 \<Longrightarrow> BrickBreaker_init 720 520 a = Inr g \<Longrightarrow> reachable g"
| step: "reachable g \<Longrightarrow> (\<forall>a. ev = KeyR a \<longrightarrow> 30 \<le> a \<and> a \<le> 150) \<Longrightarrow>
         handle ev g = Inr g' \<Longrightarrow> reachable g'"


section \<open>Predicates and example states\<close>

definition speed_inv :: "Ball \<Rightarrow> bool" where
  \<comment> \<open>the velocity has the magnitude \<open>speed\<close>\<close>
  "speed_inv b = (hypot (vx b) (vy b) = speed b)"

definition two_brick_game :: "real \<times> real \<Rightarrow> real \<times> real \<Rightarrow> int \<Rightarrow> BrickBreaker" where
  \<comment> \<open>a game in play on the default field, with the paddle in the middle, the ball's centre
      and velocity as given, \<open>n\<close> lives, and two bricks left side by side in the top row: a
      brick with one hit left and a brick with three\<close>
  "two_brick_game c v n =
     \<lparr>width = 720, height = 520,
      canvas = \<lparr>cwidth = 720, cheight = 520,
                items = [1 \<mapsto> \<lparr>tags = [''paddle''], xy = [305, 484, 415, 496], fill = ''#333333''\<rparr>,
                         2 \<mapsto> \<lparr>tags = [''ball''],
                                xy = [fst c - 8, snd c - 8, fst c + 8, snd c + 8],
                                fill = ''#FFAA00''\<rparr>,
                         3 \<mapsto> \<lparr>tags = [''brick''], xy = [60, 50, 135, 70], fill = ''#4535AA''\<rparr>,
                         4 \<mapsto> \<lparr>tags = [''brick''], xy = [135, 50, 210, 70], fill = ''#8FE1A2''\<rparr>],
                next_id = 5\<rparr>,
      score = 0, level = 1, lives = n, started = True, paused = False,
      paddle = \<lparr>item = 1, pwidth = 110, pheight = 12, canvas_width = 720\<rparr>,
      ball = \<lparr>item = 2, radius = 8, vx = fst v, vy = snd v, speed = 5\<rparr>,
      score_text = 0, level_text = 0,
      bricks = [\<lparr>item = 3, bwidth = 75, bheight = 20, hits = 1\<rparr>,
                \<lparr>item = 4, bwidth = 75, bheight = 20, hits = 3\<rparr>],
      instr = 0\<rparr>"

definition offset ::
  "real \<times> real \<times> real \<times> real \<Rightarrow> real \<times> real \<times> real \<times> real \<Rightarrow> real \<Rightarrow> real" where
  \<comment> \<open>the spec's words: (ball centre x - paddle centre x) / paddle half width, for the ball's
      box, the paddle's box and the half width\<close>
  "offset bb pb half =
     (let (bx1, by1, bx2, by2) = bb; (px1, py1, px2, py2) = pb
      in ((bx1 + bx2) / 2 - (px1 + px2) / 2) / half)"

definition reflection_angle ::
  "real \<times> real \<times> real \<times> real \<Rightarrow> real \<times> real \<times> real \<times> real \<Rightarrow> real \<Rightarrow> real" where
  \<comment> \<open>the spec's words: the offset mapped linearly to an angle, 75 degrees at offset 1\<close>
  "reflection_angle bb pb half = offset bb pb half * radians 75"

definition grid_brick :: "nat \<Rightarrow> int \<Rightarrow> int \<Rightarrow> Brick" where
  \<comment> \<open>the brick object that \<open>build_level\<close> makes for row \<open>r\<close> at level \<open>lvl\<close>, given its item\<close>
  "grid_brick i lvl r = \<lparr>item = i, bwidth = 75, bheight = 20, hits = min 3 (1 + (r + lvl) div 2)\<rparr>"

definition grid_item :: "int \<Rightarrow> int \<Rightarrow> int \<times> int \<Rightarrow> citem" where
  \<comment> \<open>the canvas item of the brick in row \<open>r\<close> and column \<open>c\<close> at level \<open>lvl\<close>, for the field
      width \<open>w\<close>: 8 columns of equal width between side margins of 60, rows 26 apart from
      the top offset 60, each brick 75 by 20 around its centre\<close>
  "grid_item w lvl rc =
     (let r = fst rc; c = snd rc;
          spacing_x = (real_of_int w - 120) / 8;
          x = 60 + spacing_x * real_of_int c + spacing_x / 2;
          y = 60 + real_of_int r * 26
      in \<lparr>tags = [''brick''],
          xy = [x - 75 / 2, y - 10, x + 75 / 2, y + 10],
          fill = COLORS_get (min 3 (1 + (r + lvl) div 2))\<rparr>)"

text \<open>
  What the bricks, the score and the canvas are after each brick whose item is in \<open>S\<close> has
  been hit once: a brick whose count reaches 0 or less is destroyed (it leaves the list, its
  item is deleted, 10 points), another brick survives with its count one lower, is filled
  with the colour of the new count, and brings 5 points.
\<close>

primrec hit_all :: "nat set \<Rightarrow> Brick list \<Rightarrow> Brick list" where
  "hit_all S [] = []"
| "hit_all S (b # bs) =
     (if item b \<in> S then
        (if hits b - 1 \<le> 0 then hit_all S bs else b\<lparr>hits := hits b - 1\<rparr> # hit_all S bs)
      else b # hit_all S bs)"

primrec points :: "nat set \<Rightarrow> Brick list \<Rightarrow> int" where
  "points S [] = 0"
| "points S (b # bs) =
     (if item b \<in> S then (if hits b - 1 \<le> 0 then 10 else 5) else 0) + points S bs"

primrec hit_items :: "nat set \<Rightarrow> Brick list \<Rightarrow> (nat \<rightharpoonup> citem) \<Rightarrow> (nat \<rightharpoonup> citem)" where
  "hit_items S [] m = m"
| "hit_items S (b # bs) m =
     hit_items S bs
       (if item b \<in> S then
          (if hits b - 1 \<le> 0 then m(item b := None)
           else (case m (item b) of None \<Rightarrow> m
                 | Some it \<Rightarrow> m(item b \<mapsto> it\<lparr>fill := COLORS_get (hits b - 1)\<rparr>)))
        else m)"

definition overlapping_bricks :: "real \<times> real \<times> real \<times> real \<Rightarrow> BrickBreaker \<Rightarrow> nat set" where
  \<comment> \<open>the items of the bricks whose box overlaps the box \<open>bb\<close>\<close>
  "overlapping_bricks bb g =
     (let (bx1, by1, bx2, by2) = bb
      in set (map item
                (filter (\<lambda>b. overlaps bx1 by1 bx2 by2 (coords (canvas g) (item b))) (bricks g))))"

definition after_hits :: "nat set \<Rightarrow> BrickBreaker \<Rightarrow> BrickBreaker" where
  \<comment> \<open>the game after each brick whose item is in \<open>S\<close> has been hit once, with one inversion
      of the ball's \<open>vy\<close> for each of these bricks\<close>
  "after_hits S g =
     g\<lparr>bricks := hit_all S (bricks g),
       canvas := (canvas g)\<lparr>items := hit_items S (bricks g) (items (canvas g))\<rparr>,
       score := score g + points S (bricks g),
       ball := (ball g)\<lparr>vy := (- 1) ^ length (filter (\<lambda>b. item b \<in> S) (bricks g))
                                * vy (ball g)\<rparr>\<rparr>"

definition hit_entry :: "nat set \<Rightarrow> Brick \<Rightarrow> citem option \<Rightarrow> citem option" where
  \<comment> \<open>the canvas entry of brick \<open>b\<close> after the hits of \<open>S\<close>\<close>
  "hit_entry S b e =
     (if item b \<in> S then
        (if hits b - 1 \<le> 0 then None
         else map_option (\<lambda>it. it\<lparr>fill := COLORS_get (hits b - 1)\<rparr>) e)
      else e)"

definition bricks_wf :: "BrickBreaker \<Rightarrow> bool" where
  \<comment> \<open>every brick object has its own canvas item, handed out by the canvas and tagged
      \<open>brick\<close>\<close>
  "bricks_wf g =
     (distinct (map item (bricks g)) \<and>
      list_all (\<lambda>b. item b < next_id (canvas g) \<and>
                     ''brick'' \<in> set (gettags (canvas g) (item b))) (bricks g))"

text \<open>
  The states of a session. The canvas has handed out every item it holds; the paddle is a
  box inside the field, at most 110 wide, at its fixed height; the ball is a box 16 wide
  and 16 high; paddle, ball and prompt are not bricks; the ball's velocity has the
  magnitude \<open>speed\<close>, which is at least 5; the score is a multiple of 5 that is not
  negative.
\<close>

definition canvas_ok :: "Canvas \<Rightarrow> bool" where
  "canvas_ok cv = (\<forall>i. next_id cv \<le> i \<longrightarrow> items cv i = None)"

definition paddle_ok :: "Canvas \<Rightarrow> Paddle \<Rightarrow> bool" where
  "paddle_ok cv p =
     (pwidth p = 110 \<and> canvas_width p = 720 \<and>
      ''brick'' \<notin> set (gettags cv (item p)) \<and>
      (\<exists>px1 px2. coords cv (item p) = [px1, 484, px2, 496] \<and>
                 0 \<le> px1 \<and> px1 \<le> px2 \<and> px2 \<le> 720 \<and> px2 - px1 \<le> 110))"

definition ball_ok :: "Canvas \<Rightarrow> Ball \<Rightarrow> bool" where
  "ball_ok cv b =
     (''brick'' \<notin> set (gettags cv (item b)) \<and>
      (\<exists>bx1 by1. coords cv (item b) = [bx1, by1, bx1 + 16, by1 + 16]) \<and>
      5 \<le> speed b \<and> speed_inv b)"

definition game_inv :: "BrickBreaker \<Rightarrow> bool" where
  "game_inv g =
     (width g = 720 \<and> height g = 520 \<and>
      canvas_ok (canvas g) \<and> bricks_wf g \<and>
      paddle_ok (canvas g) (paddle g) \<and> ball_ok (canvas g) (ball g) \<and>
      item (paddle g) \<noteq> item (ball g) \<and>
      ''brick'' \<notin> set (gettags (canvas g) (instr g)) \<and>
      instr g \<noteq> item (paddle g) \<and> instr g \<noteq> item (ball g) \<and>
      instr g < next_id (canvas g) \<and>
      0 \<le> score g \<and> 5 dvd score g)"


section \<open>Properties\<close>

subsection \<open>Arithmetic of velocities\<close>

lemma atan2_scale: "0 < k \<Longrightarrow> atan2 (y * k) (x * k) = atan2 y x"
proof -
  assume k: "0 < k"
  have e: "Complex (x * k) (y * k) = of_real k * Complex x y"
    by (simp add: complex_eq_iff mult.commute)
  have "sgn (complex_of_real k) = 1"
    using k by (simp add: sgn_eq)
  then have s: "sgn (of_real k * Complex x y) = sgn (Complex x y)"
    by (simp add: sgn_mult)
  have z: "(of_real k * Complex x y = 0) = (Complex x y = 0)"
    using k by simp
  show ?thesis
    unfolding atan2_def e Arg_def s z ..
qed

lemma hypot_scale: "hypot (x * k) (y * k) = \<bar>k\<bar> * hypot x y"
proof -
  have "(x * k)^2 + (y * k)^2 = k^2 * (x^2 + y^2)"
    by (simp add: power_mult_distrib algebra_simps)
  then show ?thesis
    by (simp add: hypot_def real_sqrt_mult)
qed

lemma hypot_zero_iff: "hypot x y = 0 \<longleftrightarrow> x = 0 \<and> y = 0"
  by (simp add: hypot_def)

lemma hypot_nonneg: "0 \<le> hypot x y"
  by (simp add: hypot_def)

lemma hypot_neg1: "hypot (- x) y = hypot x y"
  by (simp add: hypot_def)

lemma hypot_neg2: "hypot x (- y) = hypot x y"
  by (simp add: hypot_def)

lemma hypot_3_4: "hypot 3 4 = 5" "hypot 3 (- 4) = 5"
proof -
  have "(3::real)^2 + 4^2 = 5^2" by simp
  then have "hypot 3 4 = sqrt (5^2)" by (simp only: hypot_def)
  then show "hypot 3 4 = 5" by simp
  then show "hypot 3 (- 4) = 5" by (simp only: hypot_neg2)
qed

lemma hypot_cos_sin: "hypot (s * cos a) (- \<bar>s * sin a\<bar>) = \<bar>s\<bar>"
proof -
  have "(s * cos a)^2 + (- \<bar>s * sin a\<bar>)^2 = s^2 * (cos a)^2 + s^2 * (sin a)^2"
    by (simp add: power_mult_distrib)
  also have "\<dots> = s^2 * ((cos a)^2 + (sin a)^2)"
    by (simp only: distrib_left)
  also have "\<dots> = s^2" by simp
  finally show ?thesis
    by (simp add: hypot_def)
qed

lemma hypot_sin_cos: "hypot (s * sin a) (- \<bar>s * cos a\<bar>) = \<bar>s\<bar>"
proof -
  have "(s * sin a)^2 + (- \<bar>s * cos a\<bar>)^2 = s^2 * (sin a)^2 + s^2 * (cos a)^2"
    by (simp add: power_mult_distrib)
  also have "\<dots> = s^2 * ((sin a)^2 + (cos a)^2)"
    by (simp only: distrib_left)
  also have "\<dots> = s^2" by simp
  finally show ?thesis
    by (simp add: hypot_def)
qed

subsection \<open>The canvas store\<close>

lemma coords_set_coords_same:
  "items cv i \<noteq> None \<Longrightarrow> coords (set_coords i cs cv) i = cs"
  by (auto simp: coords_def set_coords_def split: option.splits)

lemma coords_set_coords_other:
  "j \<noteq> i \<Longrightarrow> coords (set_coords i cs cv) j = coords cv j"
  by (auto simp: coords_def set_coords_def split: option.splits)

lemma coords_four_item: "coords cv i = [a, b, c, d] \<Longrightarrow> items cv i \<noteq> None"
  by (auto simp: coords_def split: option.splits)

subsection \<open>Ball speed\<close>

lemma set_speed_zero: "hypot (vx b) (vy b) = 0 \<Longrightarrow> set_speed b s = Inl ZeroDivisionError"
  by (simp add: set_speed_def truediv_def ebind_def)

lemma set_speed_nonzero:
  assumes "hypot (vx b) (vy b) \<noteq> 0"
  shows "set_speed b s =
           Inr (b\<lparr>vx := vx b * (s / hypot (vx b) (vy b)),
                  vy := vy b * (s / hypot (vx b) (vy b)), speed := s\<rparr>)"
  using assms by (simp add: set_speed_def truediv_def ebind_def Let_def)

lemma set_speed_fields:
  assumes m: "hypot (vx b) (vy b) \<noteq> 0" and r: "set_speed b s = Inr b'"
  obtains k where "k = s / hypot (vx b) (vy b)" and "vx b' = vx b * k" and "vy b' = vy b * k"
    and "speed b' = s" and "item b' = item b" and "radius b' = radius b"
proof -
  have "b' = b\<lparr>vx := vx b * (s / hypot (vx b) (vy b)),
                vy := vy b * (s / hypot (vx b) (vy b)), speed := s\<rparr>"
    using r set_speed_nonzero [OF m, of s] by simp
  then have "vx b' = vx b * (s / hypot (vx b) (vy b))"
    and "vy b' = vy b * (s / hypot (vx b) (vy b))" and "speed b' = s"
    and "item b' = item b" and "radius b' = radius b"
    by simp_all
  then show ?thesis using that by blast
qed

lemma set_speed_magnitude:
  assumes m: "hypot (vx b) (vy b) \<noteq> 0" and s: "0 \<le> s" and r: "set_speed b s = Inr b'"
  shows "hypot (vx b') (vy b') = s" and "speed b' = s"
proof -
  have pos: "0 < hypot (vx b) (vy b)" using m hypot_nonneg [of "vx b" "vy b"] by simp
  from set_speed_fields [OF m r] obtain k where k: "k = s / hypot (vx b) (vy b)"
    and f: "vx b' = vx b * k" "vy b' = vy b * k" "speed b' = s" by blast
  have "0 \<le> k" using pos s k by simp
  then have "hypot (vx b') (vy b') = k * hypot (vx b) (vy b)"
    by (simp only: f hypot_scale abs_of_nonneg)
  also have "\<dots> = s" using pos k by simp
  finally show "hypot (vx b') (vy b') = s" .
  show "speed b' = s" by (rule f)
qed

lemma set_speed_direction:
  assumes m: "hypot (vx b) (vy b) \<noteq> 0" and s: "0 < s" and r: "set_speed b s = Inr b'"
  shows "atan2 (vy b') (vx b') = atan2 (vy b) (vx b)"
proof -
  have pos: "0 < hypot (vx b) (vy b)" using m hypot_nonneg [of "vx b" "vy b"] by simp
  from set_speed_fields [OF m r] obtain k where k: "k = s / hypot (vx b) (vy b)"
    and f: "vx b' = vx b * k" "vy b' = vy b * k" "speed b' = s" by blast
  have "0 < k" using pos s k by simp
  then show ?thesis by (simp only: f atan2_scale)
qed

text \<open>
  C3, as the code has it. \<open>set_speed\<close> divides by the current magnitude without a guard:
  when the magnitude is zero the division raises \<open>ZeroDivisionError\<close>, before any field of
  the ball is assigned, so the call is not a silent no-op. The ball below stands still.
\<close>

theorem set_speed_zero_magnitude_raises:
  "set_speed \<lparr>item = 3, radius = 8, vx = 0, vy = 0, speed = 5\<rparr> 6 = Inl ZeroDivisionError \<and>
   set_speed \<lparr>item = 3, radius = 8, vx = 0, vy = 0, speed = 5\<rparr> 6
     \<noteq> Inr \<lparr>item = 3, radius = 8, vx = 0, vy = 0, speed = 5\<rparr>"
  by (simp add: set_speed_def truediv_def ebind_def hypot_def)

text \<open>
  C3, amended: \<open>set_speed b s\<close> raises \<open>ZeroDivisionError\<close> when the current magnitude is
  zero; when it is not zero and the new speed \<open>s\<close> is positive, the call returns a ball
  whose velocity has magnitude \<open>s\<close>, whose \<open>speed\<close> is \<open>s\<close> and whose direction
  \<open>atan2 vy vx\<close> is the one it had.
\<close>

theorem set_speed_rescales_or_raises:
  "(hypot (vx b) (vy b) = 0 \<longrightarrow> set_speed b s = Inl ZeroDivisionError) \<and>
   (hypot (vx b) (vy b) \<noteq> 0 \<and> 0 < s \<longrightarrow>
      (\<exists>b'. set_speed b s = Inr b' \<and> hypot (vx b') (vy b') = s \<and> speed b' = s \<and>
            atan2 (vy b') (vx b') = atan2 (vy b) (vx b)))"
proof (intro conjI impI)
  assume "hypot (vx b) (vy b) = 0"
  then show "set_speed b s = Inl ZeroDivisionError" by (rule set_speed_zero)
next
  assume a: "hypot (vx b) (vy b) \<noteq> 0 \<and> 0 < s"
  then obtain b' where r: "set_speed b s = Inr b'"
    using set_speed_nonzero by blast
  from a r show "\<exists>b'. set_speed b s = Inr b' \<and> hypot (vx b') (vy b') = s \<and> speed b' = s \<and>
            atan2 (vy b') (vx b') = atan2 (vy b) (vx b)"
    using set_speed_magnitude [of b s b'] set_speed_direction [of b s b'] by auto
qed

theorem set_speed_rescales_or_raises_witness:
  "hypot (vx \<lparr>item = 3, radius = 8, vx = 0, vy = 0, speed = 5\<rparr>)
         (vy \<lparr>item = 3, radius = 8, vx = 0, vy = 0, speed = 5\<rparr>) = 0 \<and>
   set_speed \<lparr>item = 3, radius = 8, vx = 0, vy = 0, speed = 5\<rparr> 6 = Inl ZeroDivisionError \<and>
   hypot (vx \<lparr>item = 3, radius = 8, vx = 3, vy = - 4, speed = 5\<rparr>)
         (vy \<lparr>item = 3, radius = 8, vx = 3, vy = - 4, speed = 5\<rparr>) \<noteq> 0 \<and> (0::real) < 10 \<and>
   (\<exists>b'. set_speed \<lparr>item = 3, radius = 8, vx = 3, vy = - 4, speed = 5\<rparr> 10 = Inr b' \<and>
         hypot (vx b') (vy b') = 10 \<and> speed b' = 10 \<and> atan2 (vy b') (vx b') = atan2 (- 4) 3)"
proof -
  have z: "hypot (vx \<lparr>item = 3, radius = 8, vx = 0, vy = 0, speed = 5\<rparr>)
         (vy \<lparr>item = 3, radius = 8, vx = 0, vy = 0, speed = 5\<rparr>) = 0"
    by (simp add: hypot_def)
  have n: "hypot (vx \<lparr>item = 3, radius = 8, vx = 3, vy = - 4, speed = 5\<rparr>)
         (vy \<lparr>item = 3, radius = 8, vx = 3, vy = - 4, speed = 5\<rparr>) \<noteq> 0 \<and> (0::real) < 10"
    by (simp add: hypot_3_4)
  show ?thesis
    using z n
      set_speed_rescales_or_raises [of "\<lparr>item = 3, radius = 8, vx = 0, vy = 0, speed = 5\<rparr>" 6]
      set_speed_rescales_or_raises [of "\<lparr>item = 3, radius = 8, vx = 3, vy = - 4, speed = 5\<rparr>" 10]
    by simp
qed

subsection \<open>Paddle\<close>

lemma move_to_coords:
  assumes "coords cv (item p) = [x1, y1, x2, y2]"
  shows "\<exists>cv'. move_to p x cv = Inr cv' \<and>
           coords cv' (item p) =
             [max 0 (x - pwidth p / 2), y1,
              min (real_of_int (canvas_width p)) (x + pwidth p / 2), y2]"
  using assms coords_four_item [OF assms]
  by (simp add: move_to_def index_def ebind_def Let_def coords_set_coords_same)

text \<open>
  C4, on the code. \<open>move_to\<close> clamps the two edges separately instead of the centre, so the
  paddle does not keep its width at a wall: a paddle of width 110 on the field of width
  720, moved to \<open>x = 0\<close>, gets the box from 0 to 55, half its width, centred at 27.5, while
  its \<open>width\<close> attribute still says 110.
\<close>

theorem move_to_left_edge_shrinks:
  "(case Paddle_init (Canvas_init 720 520) 360 490 110 12 of
      (p, cv) \<Rightarrow> (case move_to p 0 cv of
                    Inl e \<Rightarrow> None
                  | Inr cv' \<Rightarrow> Some (coords cv' (item p), pwidth p)))
   = Some ([0, 484, 55, 496], 110)"
  by (simp add: Paddle_init_def Canvas_init_def create_rectangle_def create_def move_to_def
      index_def ebind_def coords_def set_coords_def Let_def)

subsection \<open>Walls\<close>

text \<open>
  C9. The wall block negates \<open>vx\<close> exactly when the ball's left edge is at or left of 0 or
  its right edge at or right of the field width, and negates \<open>vy\<close> exactly when its top
  edge is at or above 0, whatever the sign of the velocity. In particular a ball whose left
  edge is still at or left of 0 while \<open>vx\<close> is already positive is sent back to the wall.
\<close>

theorem wall_collision_unconditional:
  "vx (ball (wall_collision (bx1, by1, bx2, by2) g)) =
     (if bx1 \<le> 0 \<or> bx2 \<ge> real_of_int (width g) then - vx (ball g) else vx (ball g)) \<and>
   vy (ball (wall_collision (bx1, by1, bx2, by2) g)) =
     (if by1 \<le> 0 then - vy (ball g) else vy (ball g)) \<and>
   (bx1 \<le> 0 \<and> 0 < vx (ball g) \<longrightarrow> vx (ball (wall_collision (bx1, by1, bx2, by2) g)) < 0)"
  by (simp add: wall_collision_def bounce_x_def bounce_y_def)

theorem wall_collision_unconditional_witness:
  "(- 2 :: real) \<le> 0 \<and> 0 < vx (ball (two_brick_game (6, 300) (3, 4) 3)) \<and>
   vx (ball (wall_collision (- 2, 292, 14, 308) (two_brick_game (6, 300) (3, 4) 3))) = - 3 \<and>
   vy (ball (wall_collision (- 2, 292, 14, 308) (two_brick_game (6, 300) (3, 4) 3))) = 4 \<and>
   vx (ball (wall_collision (- 2, 292, 14, 308) (two_brick_game (6, 300) (3, 4) 3))) < 0"
proof -
  have h: "(- 2 :: real) \<le> 0 \<and> 0 < vx (ball (two_brick_game (6, 300) (3, 4) 3))"
    by (simp add: two_brick_game_def)
  show ?thesis
    using h wall_collision_unconditional [of "- 2" 292 14 308 "two_brick_game (6, 300) (3, 4) 3"]
    by (simp add: two_brick_game_def)
qed

lemma ebind_simps [simp]: "ebind (Inr x) f = f x" "ebind (Inl e) f = Inl e"
  by (simp_all add: ebind_def)

lemma ebind_eq_Inr: "ebind m f = Inr y \<longleftrightarrow> (\<exists>x. m = Inr x \<and> f x = Inr y)"
  by (cases m) simp_all

lemma unpack4_eq_Inr: "unpack4 xs = Inr (a, b, c, d) \<longleftrightarrow> xs = [a, b, c, d]"
  by (auto simp: unpack4_def split: list.splits)

lemma unpack4_four [simp]: "unpack4 [a, b, c, d] = Inr (a, b, c, d)"
  by (simp add: unpack4_def)

subsection \<open>What the collision blocks leave alone\<close>

lemma wall_collision_frame:
  "width (wall_collision bb g) = width g" "height (wall_collision bb g) = height g"
  "canvas (wall_collision bb g) = canvas g" "score (wall_collision bb g) = score g"
  "level (wall_collision bb g) = level g" "lives (wall_collision bb g) = lives g"
  "started (wall_collision bb g) = started g" "paused (wall_collision bb g) = paused g"
  "paddle (wall_collision bb g) = paddle g" "bricks (wall_collision bb g) = bricks g"
  "instr (wall_collision bb g) = instr g"
  "item (ball (wall_collision bb g)) = item (ball g)"
  "speed (ball (wall_collision bb g)) = speed (ball g)"
  "hypot (vx (ball (wall_collision bb g))) (vy (ball (wall_collision bb g)))
     = hypot (vx (ball g)) (vy (ball g))"
  by (cases bb; simp add: wall_collision_def bounce_x_def bounce_y_def hypot_neg1 hypot_neg2)+

lemma paddle_collision_frame:
  assumes "paddle_collision bb g = Inr g'"
  shows "width g' = width g" "height g' = height g" "canvas g' = canvas g"
    "score g' = score g" "level g' = level g" "lives g' = lives g"
    "started g' = started g" "paused g' = paused g" "paddle g' = paddle g"
    "bricks g' = bricks g" "instr g' = instr g"
    "item (ball g') = item (ball g)" "speed (ball g') = speed (ball g)"
  using assms
  by (cases bb;
      auto simp: paddle_collision_def ebind_eq_Inr Let_def truediv_def
           split: if_splits prod.splits)+

lemma hit_item_length: "hit_item i bs cv = (bs', cv', r) \<Longrightarrow> length bs' \<le> length bs"
  by (induction bs arbitrary: bs' cv' r)
     (auto simp: hit_def Let_def split: if_splits prod.splits)

lemma overlap_item_score:
  "score (overlap_item i g) = score g \<or> score (overlap_item i g) = score g + 5 \<or>
   score (overlap_item i g) = score g + 10"
  by (auto simp: overlap_item_def split: prod.splits option.splits)

lemma overlap_item_frame:
  "width (overlap_item i g) = width g" "height (overlap_item i g) = height g"
  "level (overlap_item i g) = level g" "lives (overlap_item i g) = lives g"
  "started (overlap_item i g) = started g" "paused (overlap_item i g) = paused g"
  "paddle (overlap_item i g) = paddle g" "instr (overlap_item i g) = instr g"
  "item (ball (overlap_item i g)) = item (ball g)"
  "speed (ball (overlap_item i g)) = speed (ball g)"
  "vx (ball (overlap_item i g)) = vx (ball g)"
  "hypot (vx (ball (overlap_item i g))) (vy (ball (overlap_item i g))) = hypot (vx (ball g)) (vy (ball g))"
  by (auto simp: overlap_item_def bounce_y_def hypot_neg2 split: prod.splits option.splits)

lemma paddle_collision_miss:
  assumes "coords (canvas g) (item (paddle g)) = [px1, py1, px2, py2]"
    and "\<not> paddle_hit bb (px1, py1, px2, py2) (vy (ball g))"
  shows "paddle_collision bb g = Inr g"
  using assms by (cases bb) (simp add: paddle_collision_def)

lemma paddle_collision_hit:
  assumes "coords (canvas g) (item (paddle g)) = [px1, py1, px2, py2]"
    and "paddle_hit bb (px1, py1, px2, py2) (vy (ball g))"
    and "pwidth (paddle g) \<noteq> 0"
  shows "paddle_collision bb g =
           Inr (g\<lparr>ball := (ball g)
                 \<lparr>vx := speed (ball g)
                         * sin (reflection_angle bb (px1, py1, px2, py2) (pwidth (paddle g) / 2)),
                  vy := - \<bar>speed (ball g)
                         * cos (reflection_angle bb (px1, py1, px2, py2) (pwidth (paddle g) / 2))\<bar>\<rparr>\<rparr>)"
  using assms
  by (cases bb)
     (simp add: paddle_collision_def truediv_def reflection_angle_def offset_def Let_def)

lemma speed_inv_bounce: "speed_inv b \<Longrightarrow> speed_inv (bounce_x b)" "speed_inv b \<Longrightarrow> speed_inv (bounce_y b)"
  by (simp_all add: speed_inv_def bounce_x_def bounce_y_def hypot_neg1 hypot_neg2)

lemma speed_inv_Ball_init: "0 \<le> s \<Longrightarrow> speed_inv (fst (Ball_init cv x y r s a))"
  by (simp add: Ball_init_def create_oval_def create_def Let_def speed_inv_def hypot_cos_sin)

lemma speed_inv_paddle_hit:
  assumes "coords (canvas g) (item (paddle g)) = [px1, py1, px2, py2]"
    and "paddle_hit bb (px1, py1, px2, py2) (vy (ball g))"
    and "paddle_collision bb g = Inr g'" and "0 \<le> speed (ball g)"
  shows "speed_inv (ball g')"
proof -
  have "pwidth (paddle g) \<noteq> 0"
    using assms(1-3) by (cases bb) (auto simp: paddle_collision_def truediv_def split: if_splits)
  from paddle_collision_hit [OF assms(1,2) this] assms(3,4)
  show ?thesis by (auto simp: speed_inv_def hypot_sin_cos)
qed

lemma set_speed_ok:
  assumes "hypot (vx b) (vy b) \<noteq> 0" and "0 < t"
  shows "\<exists>b'. set_speed b t = Inr b' \<and> speed_inv b' \<and> speed b' = t \<and>
            atan2 (vy b') (vx b') = atan2 (vy b) (vx b)"
proof -
  obtain b' where r: "set_speed b t = Inr b'"
    using set_speed_nonzero [OF assms(1)] by blast
  with assms have "hypot (vx b') (vy b') = t" "speed b' = t"
    "atan2 (vy b') (vx b') = atan2 (vy b) (vx b)"
    using set_speed_magnitude [of b t b'] set_speed_direction [of b t b'] by auto
  with r show ?thesis by (auto simp: speed_inv_def)
qed

text \<open>
  C8. Over exact reals, the velocity has magnitude \<open>speed\<close> after each operation that
  touches the speed or the velocity: after the construction of the ball (for a speed that is
  not negative; the game passes 5), after \<open>set_speed\<close> and \<open>increase_speed\<close> on a ball that
  moves, for a positive new speed, which also keep the direction \<open>atan2 vy vx\<close>; after
  \<open>bounce_x\<close> and \<open>bounce_y\<close>, which keep the magnitude; and after a paddle reflection.
\<close>

theorem speed_invariant_operations:
  "(0 \<le> s \<longrightarrow> speed_inv (fst (Ball_init cv x y r s a))) \<and>
   (hypot (vx b) (vy b) \<noteq> 0 \<and> 0 < s' \<longrightarrow>
      (\<exists>b'. set_speed b s' = Inr b' \<and> speed_inv b' \<and> speed b' = s' \<and>
            atan2 (vy b') (vx b') = atan2 (vy b) (vx b))) \<and>
   (hypot (vx b) (vy b) \<noteq> 0 \<and> 0 < speed b + d \<longrightarrow>
      (\<exists>b'. increase_speed b d = Inr b' \<and> speed_inv b' \<and> speed b' = speed b + d \<and>
            atan2 (vy b') (vx b') = atan2 (vy b) (vx b))) \<and>
   (speed_inv b \<longrightarrow> speed_inv (bounce_x b) \<and> speed_inv (bounce_y b)) \<and>
   (coords (canvas g) (item (paddle g)) = [px1, py1, px2, py2] \<and>
    paddle_hit bb (px1, py1, px2, py2) (vy (ball g)) \<and>
    paddle_collision bb g = Inr g' \<and> 0 \<le> speed (ball g) \<longrightarrow> speed_inv (ball g'))"
  using speed_inv_Ball_init [of s cv x y r a] set_speed_ok [of b s']
    set_speed_ok [of b "speed b + d"] speed_inv_bounce [of b]
    speed_inv_paddle_hit [of g px1 py1 px2 py2 bb g']
  by (simp add: increase_speed_def)

theorem speed_invariant_operations_witness:
  "(0::real) \<le> 5 \<and> speed_inv (fst (Ball_init (Canvas_init 720 520) 360 460 8 5 90)) \<and>
   hypot (vx (ball (two_brick_game (360, 470) (3, 4) 3)))
         (vy (ball (two_brick_game (360, 470) (3, 4) 3))) \<noteq> 0 \<and> (0::real) < 10 \<and>
   (\<exists>b'. set_speed (ball (two_brick_game (360, 470) (3, 4) 3)) 10 = Inr b' \<and> speed_inv b' \<and>
         speed b' = 10 \<and> atan2 (vy b') (vx b') = atan2 4 3) \<and>
   0 < speed (ball (two_brick_game (360, 470) (3, 4) 3)) + 8 / 10 \<and>
   (\<exists>b'. increase_speed (ball (two_brick_game (360, 470) (3, 4) 3)) (8 / 10) = Inr b' \<and>
         speed_inv b' \<and> speed b' = 58 / 10 \<and> atan2 (vy b') (vx b') = atan2 4 3) \<and>
   speed_inv (ball (two_brick_game (360, 470) (3, 4) 3)) \<and>
   speed_inv (bounce_x (ball (two_brick_game (360, 470) (3, 4) 3))) \<and>
   speed_inv (bounce_y (ball (two_brick_game (360, 470) (3, 4) 3))) \<and>
   coords (canvas (two_brick_game (360, 470) (3, 4) 3))
          (item (paddle (two_brick_game (360, 470) (3, 4) 3))) = [305, 484, 415, 496] \<and>
   paddle_hit (355, 466, 371, 484) (305, 484, 415, 496)
              (vy (ball (two_brick_game (360, 470) (3, 4) 3))) \<and>
   (\<exists>g'. paddle_collision (355, 466, 371, 484) (two_brick_game (360, 470) (3, 4) 3) = Inr g' \<and>
         speed_inv (ball g'))"
proof -
  let ?g = "two_brick_game (360, 470) (3, 4) 3"
  have c: "coords (canvas ?g) (item (paddle ?g)) = [305, 484, 415, 496]"
    by (simp add: two_brick_game_def coords_def)
  have h: "paddle_hit (355, 466, 371, 484) (305, 484, 415, 496) (vy (ball ?g))"
    by (simp add: two_brick_game_def paddle_hit_def)
  have w: "pwidth (paddle ?g) \<noteq> 0" by (simp add: two_brick_game_def)
  have m: "hypot (vx (ball ?g)) (vy (ball ?g)) \<noteq> 0" "speed_inv (ball ?g)"
    "speed (ball ?g) = 5" "vx (ball ?g) = 3" "vy (ball ?g) = 4"
    by (simp_all add: two_brick_game_def hypot_3_4 speed_inv_def)
  obtain g' where g': "paddle_collision (355, 466, 371, 484) ?g = Inr g'"
    using paddle_collision_hit [OF c h w] by blast
  show ?thesis
    using c h m g'
      speed_invariant_operations [of 5 "Canvas_init 720 520" 360 460 8 90 "ball ?g" 10
        "8 / 10" ?g 305 484 415 496 "(355, 466, 371, 484)" g']
    by simp
qed

lemma place_brick_eq:
  "place_brick w lvl r c (bs, cv) =
     (bs @ [grid_brick (next_id cv) lvl r],
      cv\<lparr>items := (items cv)(next_id cv \<mapsto> grid_item w lvl (r, c)),
         next_id := next_id cv + 1\<rparr>)"
  by (simp add: place_brick_def Brick_init_def create_rectangle_def create_def Let_def
      grid_brick_def grid_item_def)

lemma fold_rows_cols:
  "fold (\<lambda>r acc. fold (\<lambda>c acc'. f r c acc') cs acc) rs acc0 =
   fold (\<lambda>rc acc. f (fst rc) (snd rc) acc) (List.product rs cs) acc0"
  by (induction rs arbitrary: acc0) (simp_all add: fold_map comp_def)

lemma fold_place_brick:
  "fold (\<lambda>rc acc. place_brick w lvl (fst rc) (snd rc) acc) cells (bs, cv) =
     (bs @ map (\<lambda>k. grid_brick (next_id cv + k) lvl (fst (cells ! k))) [0 ..< length cells],
      cv\<lparr>items := (\<lambda>i. if next_id cv \<le> i \<and> i < next_id cv + length cells
                         then Some (grid_item w lvl (cells ! (i - next_id cv)))
                         else items cv i),
         next_id := next_id cv + length cells\<rparr>)"
proof (induction cells rule: rev_induct)
  case Nil
  have "(\<lambda>i. if next_id cv \<le> i \<and> i < next_id cv
             then Some (grid_item w lvl ([] ! (i - next_id cv))) else items cv i) = items cv"
    by (rule ext) auto
  then show ?case by simp
next
  case (snoc x xs)
  have m: "map (\<lambda>k. grid_brick (next_id cv + k) lvl (fst ((xs @ [x]) ! k))) [0 ..< length xs]
         = map (\<lambda>k. grid_brick (next_id cv + k) lvl (fst (xs ! k))) [0 ..< length xs]"
    by (simp add: nth_append)
  have i: "(\<lambda>i. if next_id cv \<le> i \<and> i < next_id cv + length xs
                 then Some (grid_item w lvl (xs ! (i - next_id cv))) else items cv i)
            (next_id cv + length xs \<mapsto> grid_item w lvl (fst x, snd x))
         = (\<lambda>i. if next_id cv \<le> i \<and> i < next_id cv + length (xs @ [x])
                 then Some (grid_item w lvl ((xs @ [x]) ! (i - next_id cv))) else items cv i)"
    by (rule ext) (auto simp: nth_append)
  show ?case
    using m i by (simp add: snoc.IH place_brick_eq)
qed

lemma fold_delete_items:
  "items (fold (\<lambda>b cv. delete (item b) cv) bs cv) =
     (\<lambda>i. if i \<in> item ` set bs then None else items cv i)"
  by (induction bs arbitrary: cv) (auto simp: delete_def)

lemma fold_delete_next_id:
  "next_id (fold (\<lambda>b cv. delete (item b) cv) bs cv) = next_id cv"
  by (induction bs arbitrary: cv) (auto simp: delete_def)

lemma length_range: "length (range n) = nat n"
  by (simp add: range_def)

lemma nth_range: "k < nat n \<Longrightarrow> range n ! k = int k"
  by (simp add: range_def)

lemma build_level_eq:
  "build_level lvl g =
     (let cv0 = fold (\<lambda>b cv. delete (item b) cv) (bricks g) (canvas g);
          cells = List.product (range (min 6 (3 + lvl))) (range 8)
      in g\<lparr>bricks := map (\<lambda>k. grid_brick (next_id cv0 + k) lvl (fst (cells ! k)))
                         [0 ..< length cells],
            canvas := cv0\<lparr>items := (\<lambda>i. if next_id cv0 \<le> i \<and> i < next_id cv0 + length cells
                                           then Some (grid_item (width g) lvl (cells ! (i - next_id cv0)))
                                           else items cv0 i),
                          next_id := next_id cv0 + length cells\<rparr>\<rparr>)"
  by (simp add: build_level_def Let_def fold_rows_cols fold_place_brick)


lemma grid_cell:
  assumes "int r < min 6 (3 + lvl)" and "c < 8"
  shows "r * 8 + c < length (List.product (range (min 6 (3 + lvl))) (range 8))"
    and "List.product (range (min 6 (3 + lvl))) (range 8) ! (r * 8 + c) = (int r, int c)"
proof -
  have r: "r < nat (min 6 (3 + lvl))" using assms(1) by linarith
  then have "r * 8 + c < nat (min 6 (3 + lvl)) * 8"
    using assms(2) by linarith
  then show l: "r * 8 + c < length (List.product (range (min 6 (3 + lvl))) (range 8))"
    by (simp add: length_range)
  have "(r * 8 + c) div 8 = r" "(r * 8 + c) mod 8 = c" using assms(2) by simp_all
  then show "List.product (range (min 6 (3 + lvl))) (range 8) ! (r * 8 + c) = (int r, int c)"
    using l r assms(2) by (simp add: product_nth length_range nth_range)
qed

text \<open>
  C7. For a level number \<open>lvl\<close> (any integer from \<open>-3\<close> on, so every level the game has),
  \<open>build_level\<close> deletes the item of every brick it had, and makes \<open>rows * 8\<close> new bricks,
  \<open>rows = min 6 (3 + lvl)\<close>, row by row with 8 columns each: the brick of row \<open>r\<close> and column
  \<open>c\<close> has \<open>min 3 (1 + (r + lvl) div 2)\<close> hits and the box \<open>grid_item\<close> gives it, a function
  of the field width, the level, the row and the column alone. The bricks it had are brick
  objects whose items the canvas handed out, so below its next identifier.
\<close>

theorem build_level_grid:
  assumes "- 3 \<le> lvl" and "\<forall>b \<in> set (bricks g). item b < next_id (canvas g)"
  shows "int (length (bricks (build_level lvl g))) = min 6 (3 + lvl) * 8 \<and>
         (\<forall>b \<in> set (bricks g). items (canvas (build_level lvl g)) (item b) = None) \<and>
         (\<forall>b \<in> set (bricks (build_level lvl g)). next_id (canvas g) \<le> item b) \<and>
         distinct (map item (bricks (build_level lvl g))) \<and>
         (\<forall>r c. int r < min 6 (3 + lvl) \<and> c < 8 \<longrightarrow>
            hits (bricks (build_level lvl g) ! (r * 8 + c)) = min 3 (1 + (int r + lvl) div 2) \<and>
            items (canvas (build_level lvl g)) (item (bricks (build_level lvl g) ! (r * 8 + c)))
              = Some (grid_item (width g) lvl (int r, int c)))"
proof -
  let ?cv0 = "fold (\<lambda>b cv. delete (item b) cv) (bricks g) (canvas g)"
  let ?cells = "List.product (range (min 6 (3 + lvl))) (range 8)"
  let ?g' = "build_level lvl g"
  have n0: "next_id ?cv0 = next_id (canvas g)" by (rule fold_delete_next_id)
  have bs: "bricks ?g' = map (\<lambda>k. grid_brick (next_id (canvas g) + k) lvl (fst (?cells ! k)))
                           [0 ..< length ?cells]"
    by (simp add: build_level_eq Let_def n0)
  have it: "items (canvas ?g') =
              (\<lambda>i. if next_id (canvas g) \<le> i \<and> i < next_id (canvas g) + length ?cells
                   then Some (grid_item (width g) lvl (?cells ! (i - next_id (canvas g))))
                   else if i \<in> item ` set (bricks g) then None else items (canvas g) i)"
    unfolding build_level_eq Let_def n0 [symmetric]
    by (rule ext) (simp add: fold_delete_items fold_delete_next_id)
  have len: "int (length (bricks ?g')) = min 6 (3 + lvl) * 8"
    using assms(1) by (simp add: bs length_range)
  have old: "\<forall>b \<in> set (bricks g). items (canvas ?g') (item b) = None"
    using assms(2) by (auto simp: it)
  have new: "\<forall>b \<in> set (bricks ?g'). next_id (canvas g) \<le> item b"
    by (auto simp: bs grid_brick_def)
  have "map item (bricks ?g') = map (\<lambda>k. next_id (canvas g) + k) [0 ..< length ?cells]"
    by (simp add: bs grid_brick_def)
  then have dist: "distinct (map item (bricks ?g'))"
    by (simp add: distinct_map inj_on_def)
  have cell: "hits (bricks ?g' ! (r * 8 + c)) = min 3 (1 + (int r + lvl) div 2) \<and>
            items (canvas ?g') (item (bricks ?g' ! (r * 8 + c)))
              = Some (grid_item (width g) lvl (int r, int c))"
    if "int r < min 6 (3 + lvl) \<and> c < 8" for r c
  proof -
    from that grid_cell [of r lvl c]
    have l: "r * 8 + c < length ?cells" and e: "?cells ! (r * 8 + c) = (int r, int c)"
      by simp_all
    have b: "bricks ?g' ! (r * 8 + c) = grid_brick (next_id (canvas g) + (r * 8 + c)) lvl (int r)"
      using l e by (simp add: bs)
    show ?thesis using l e by (simp add: b it grid_brick_def)
  qed
  show ?thesis
  proof (intro conjI allI impI)
    show "int (length (bricks ?g')) = min 6 (3 + lvl) * 8" by (rule len)
    show "\<forall>b \<in> set (bricks g). items (canvas ?g') (item b) = None" by (rule old)
    show "\<forall>b \<in> set (bricks ?g'). next_id (canvas g) \<le> item b" by (rule new)
    show "distinct (map item (bricks ?g'))" by (rule dist)
  next
    fix r c :: nat assume "int r < min 6 (3 + lvl) \<and> c < 8"
    from cell [OF this]
    show "hits (bricks ?g' ! (r * 8 + c)) = min 3 (1 + (int r + lvl) div 2)"
      and "items (canvas ?g') (item (bricks ?g' ! (r * 8 + c)))
              = Some (grid_item (width g) lvl (int r, int c))"
      by simp_all
  qed
qed


theorem build_level_grid_witness:
  "(- 3 :: int) \<le> 1 \<and>
   map item (bricks (two_brick_game (360, 300) (3, 4) 3)) = [3, 4] \<and>
   next_id (canvas (two_brick_game (360, 300) (3, 4) 3)) = 5 \<and>
   int (length (bricks (build_level 1 (two_brick_game (360, 300) (3, 4) 3)))) = 32 \<and>
   items (canvas (build_level 1 (two_brick_game (360, 300) (3, 4) 3))) 3 = None \<and>
   items (canvas (build_level 1 (two_brick_game (360, 300) (3, 4) 3))) 4 = None \<and>
   hits (bricks (build_level 1 (two_brick_game (360, 300) (3, 4) 3)) ! 31) = 3 \<and>
   map_option xy
     (items (canvas (build_level 1 (two_brick_game (360, 300) (3, 4) 3)))
        (item (bricks (build_level 1 (two_brick_game (360, 300) (3, 4) 3)) ! 31)))
     = Some [585, 128, 660, 148]"
proof -
  let ?g = "two_brick_game (360, 300) (3, 4) 3"
  have l: "(- 3 :: int) \<le> 1" by simp
  have m: "map item (bricks ?g) = [3, 4]" "next_id (canvas ?g) = 5" "width ?g = 720"
    by (simp_all add: two_brick_game_def)
  have s: "\<exists>b \<in> set (bricks ?g). item b = 3" "\<exists>b \<in> set (bricks ?g). item b = 4"
    by (simp_all add: two_brick_game_def)
  have h: "\<forall>b \<in> set (bricks ?g). item b < next_id (canvas ?g)"
    by (simp add: two_brick_game_def)
  note t = build_level_grid [OF l h]
  have len: "int (length (bricks (build_level 1 ?g))) = 32"
    using t by simp
  have old: "items (canvas (build_level 1 ?g)) 3 = None" "items (canvas (build_level 1 ?g)) 4 = None"
    using t s by metis+
  have "int 3 < min 6 (3 + 1) \<and> (7::nat) < 8" by simp
  with t have c: "hits (bricks (build_level 1 ?g) ! (3 * 8 + 7)) = min 3 (1 + (int 3 + 1) div 2) \<and>
      items (canvas (build_level 1 ?g)) (item (bricks (build_level 1 ?g) ! (3 * 8 + 7)))
        = Some (grid_item (width ?g) 1 (int 3, int 7))"
    by blast
  have x: "xy (grid_item 720 1 (3, 7)) = [585, 128, 660, 148]"
    by (simp add: grid_item_def)
  show ?thesis
    using l m len old c x by simp
qed

lemma hit_item_notin:
  "i \<notin> item ` set bs \<Longrightarrow> hit_item i bs cv = (bs, cv, None)"
  by (induction bs) auto

lemma hit_all_notin: "S \<inter> item ` set bs = {} \<Longrightarrow> hit_all S bs = bs"
  by (induction bs) auto

lemma points_notin: "S \<inter> item ` set bs = {} \<Longrightarrow> points S bs = 0"
  by (induction bs) auto

lemma hit_items_notin: "S \<inter> item ` set bs = {} \<Longrightarrow> hit_items S bs m = m"
  by (induction bs arbitrary: m) auto

lemma hit_item_in:
  assumes "distinct (map item bs)" and "i \<in> item ` set bs"
  shows "\<exists>d. hit_item i bs cv =
           (hit_all {i} bs, cv\<lparr>items := hit_items {i} bs (items cv)\<rparr>, Some d) \<and>
           points {i} bs = (if d then 10 else 5)"
  using assms
proof (induction bs)
  case Nil
  then show ?case by simp
next
  case (Cons b bs)
  show ?case
  proof (cases "item b = i")
    case True
    then have n: "{i} \<inter> item ` set bs = {}" using Cons.prems(1) by auto
    note r = hit_all_notin [OF n] points_notin [OF n] hit_items_notin [OF n]
    show ?thesis
    proof (cases "hits b - 1 \<le> 0")
      case d: True
      have "hit_item i (b # bs) cv =
              (hit_all {i} (b # bs), cv\<lparr>items := hit_items {i} (b # bs) (items cv)\<rparr>, Some True)"
        using True d by (simp add: hit_def Let_def r delete_def)
      moreover have "points {i} (b # bs) = (if True then 10 else 5)"
        using True d by (simp add: r)
      ultimately show ?thesis by (intro exI [of _ True] conjI)
    next
      case d: False
      have "itemconfig_fill i (COLORS_get (hits b - 1)) cv
              = cv\<lparr>items := hit_items {i} (b # bs) (items cv)\<rparr>"
        using True d by (cases "items cv i") (simp_all add: r itemconfig_fill_def)
      then have "hit_item i (b # bs) cv =
              (hit_all {i} (b # bs), cv\<lparr>items := hit_items {i} (b # bs) (items cv)\<rparr>, Some False)"
        using True d by (simp add: hit_def Let_def r)
      moreover have "points {i} (b # bs) = (if False then 10 else 5)"
        using True d by (simp add: r)
      ultimately show ?thesis by (intro exI [of _ False] conjI)
    qed
  next
    case False
    then have "i \<in> item ` set bs" and "distinct (map item bs)" using Cons.prems by auto
    from Cons.IH [OF this(2,1)] obtain d where
      h: "hit_item i bs cv = (hit_all {i} bs, cv\<lparr>items := hit_items {i} bs (items cv)\<rparr>, Some d)"
      and p: "points {i} bs = (if d then 10 else 5)" by blast
    have "hit_item i (b # bs) cv =
            (hit_all {i} (b # bs), cv\<lparr>items := hit_items {i} (b # bs) (items cv)\<rparr>, Some d)"
      using False by (simp add: h)
    moreover have "points {i} (b # bs) = (if d then 10 else 5)"
      using False by (simp add: p)
    ultimately show ?thesis by (intro exI [of _ d] conjI)
  qed
qed


lemma item_hit_all: "item ` set (hit_all S bs) \<subseteq> item ` set bs"
  by (induction bs) auto

lemma distinct_hit_all: "distinct (map item bs) \<Longrightarrow> distinct (map item (hit_all S bs))"
proof (induction bs)
  case Nil
  then show ?case by simp
next
  case (Cons b bs)
  then have "item b \<notin> item ` set (hit_all S bs)" using item_hit_all [of S bs] by auto
  with Cons show ?case by auto
qed

lemma hit_all_cong:
  "(\<forall>b \<in> set bs. item b \<in> A \<longleftrightarrow> item b \<in> B) \<Longrightarrow> hit_all A bs = hit_all B bs"
  by (induction bs) auto

lemma points_cong:
  "(\<forall>b \<in> set bs. item b \<in> A \<longleftrightarrow> item b \<in> B) \<Longrightarrow> points A bs = points B bs"
  by (induction bs) auto

lemma hit_items_cong:
  "(\<forall>b \<in> set bs. item b \<in> A \<longleftrightarrow> item b \<in> B) \<Longrightarrow> hit_items A bs m = hit_items B bs m"
  by (induction bs arbitrary: m) auto

lemma filter_item_cong:
  "(\<forall>b \<in> set bs. item b \<in> A \<longleftrightarrow> item b \<in> B) \<Longrightarrow>
     filter (\<lambda>b. item b \<in> A) bs = filter (\<lambda>b. item b \<in> B) bs"
  by (induction bs) auto

lemma hit_all_insert:
  "i \<notin> A \<Longrightarrow> hit_all A (hit_all {i} bs) = hit_all (insert i A) bs"
  by (induction bs) auto

lemma points_insert:
  "i \<notin> A \<Longrightarrow> points A (hit_all {i} bs) + points {i} bs = points (insert i A) bs"
  by (induction bs) auto

lemma count_insert:
  "i \<notin> A \<Longrightarrow>
     length (filter (\<lambda>b. item b \<in> A) (hit_all {i} bs)) + length (filter (\<lambda>b. item b = i) bs)
       = length (filter (\<lambda>b. item b = i \<or> item b \<in> A) bs)"
  by (induction bs) auto

lemma hit_items_other: "j \<notin> item ` set bs \<Longrightarrow> hit_items S bs m j = m j"
  by (induction bs arbitrary: m) (auto split: option.splits)

lemma hit_items_apply:
  assumes "distinct (map item bs)"
  shows "hit_items S bs m j =
           (case find (\<lambda>b. item b = j) bs of None \<Rightarrow> m j | Some b \<Rightarrow> hit_entry S b (m j))"
  using assms
proof (induction bs arbitrary: m)
  case Nil
  then show ?case by simp
next
  case (Cons b bs)
  then have d: "distinct (map item bs)" and n: "item b \<notin> item ` set bs" by auto
  show ?case
  proof (cases "item b = j")
    case True
    then have "j \<notin> item ` set bs" using n by simp
    then show ?thesis
      using True by (simp add: hit_items_other hit_entry_def split: option.splits)
  next
    case False
    then show ?thesis
      by (simp add: Cons.IH [OF d] hit_entry_def split: option.splits)
  qed
qed


lemma find_item: "find (\<lambda>b. item b = j) bs = Some b \<Longrightarrow> item b = j"
  by (induction bs) (auto split: if_splits)

lemma find_hit_all_other:
  "j \<notin> S \<Longrightarrow> find (\<lambda>b. item b = j) (hit_all S bs) = find (\<lambda>b. item b = j) bs"
  by (induction bs) auto

lemma hit_items_insert:
  assumes "i \<notin> A" and "distinct (map item bs)"
  shows "hit_items A (hit_all {i} bs) (hit_items {i} bs m) = hit_items (insert i A) bs m"
proof (rule ext)
  fix j
  have d: "distinct (map item (hit_all {i} bs))" using assms(2) by (rule distinct_hit_all)
  show "hit_items A (hit_all {i} bs) (hit_items {i} bs m) j = hit_items (insert i A) bs m j"
  proof (cases "j = i")
    case True
    have "hit_items A (hit_all {i} bs) (hit_items {i} bs m) i = hit_items {i} bs m i"
    proof (cases "find (\<lambda>b. item b = i) (hit_all {i} bs)")
      case None
      then show ?thesis by (simp add: hit_items_apply [OF d])
    next
      case (Some b)
      then have "item b \<notin> A" using find_item [OF Some] assms(1) by simp
      then show ?thesis using Some by (simp add: hit_items_apply [OF d] hit_entry_def)
    qed
    also have "\<dots> = hit_items (insert i A) bs m i"
      by (auto simp: hit_items_apply [OF assms(2)] hit_entry_def dest: find_item
          split: option.splits)
    finally show ?thesis using True by simp
  next
    case False
    then have f: "find (\<lambda>b. item b = j) (hit_all {i} bs) = find (\<lambda>b. item b = j) bs"
      by (simp add: find_hit_all_other)
    show ?thesis
    proof (cases "find (\<lambda>b. item b = j) bs")
      case None
      then show ?thesis
        by (simp add: hit_items_apply [OF d] hit_items_apply [OF assms(2)] f)
    next
      case (Some b)
      then have "item b = j" by (rule find_item)
      then show ?thesis
        using Some False
        by (simp add: hit_items_apply [OF d] hit_items_apply [OF assms(2)] f hit_entry_def)
    qed
  qed
qed


lemma find_distinct:
  "distinct (map item bs) \<Longrightarrow> b \<in> set bs \<Longrightarrow> find (\<lambda>x. item x = item b) bs = Some b"
  by (induction bs) auto

lemma hit_items_brick:
  "distinct (map item bs) \<Longrightarrow> b \<in> set bs \<Longrightarrow>
     hit_items S bs m (item b) = hit_entry S b (m (item b))"
  by (simp add: hit_items_apply find_distinct)

lemma hit_all_origin:
  "b' \<in> set (hit_all S bs) \<Longrightarrow>
     \<exists>b \<in> set bs. item b = item b' \<and> (item b \<in> S \<longrightarrow> \<not> hits b - 1 \<le> 0)"
  by (induction bs) (auto split: if_splits)

lemma count_none: "i \<notin> item ` set bs \<Longrightarrow> filter (\<lambda>b. item b = i) bs = []"
  by (induction bs) auto

lemma count_one:
  "distinct (map item bs) \<Longrightarrow> i \<in> item ` set bs \<Longrightarrow>
     length (filter (\<lambda>b. item b = i) bs) = 1"
proof (induction bs)
  case Nil
  then show ?case by simp
next
  case (Cons b bs)
  show ?case
  proof (cases "item b = i")
    case True
    then have "i \<notin> item ` set bs" using Cons.prems(1) by auto
    then show ?thesis using True by (simp add: count_none)
  next
    case False
    then show ?thesis using Cons by auto
  qed
qed

lemma after_hits_none:
  assumes "i \<notin> item ` set (bricks g)"
  shows "after_hits {i} g = g"
proof -
  have n: "{i} \<inter> item ` set (bricks g) = {}" using assms by simp
  show ?thesis
    by (simp add: after_hits_def hit_all_notin [OF n] points_notin [OF n]
        hit_items_notin [OF n] count_none [OF assms])
qed

lemma overlap_item_eq:
  assumes "bricks_wf g"
  shows "overlap_item i g = after_hits {i} g"
proof (cases "i \<in> item ` set (bricks g)")
  case True
  have d: "distinct (map item (bricks g))" using assms by (simp add: bricks_wf_def)
  from True obtain b where "b \<in> set (bricks g)" "item b = i" by auto
  then have t: "''brick'' \<in> set (gettags (canvas g) i)"
    using assms by (auto simp: bricks_wf_def list_all_iff)
  from hit_item_in [OF d True, of "canvas g"] obtain dd where
    h: "hit_item i (bricks g) (canvas g) =
          (hit_all {i} (bricks g), (canvas g)\<lparr>items := hit_items {i} (bricks g) (items (canvas g))\<rparr>,
           Some dd)"
    and p: "points {i} (bricks g) = (if dd then 10 else 5)" by blast
  show ?thesis
    using t by (simp add: overlap_item_def h p after_hits_def count_one [OF d True] bounce_y_def)
next
  case False
  then show ?thesis
    by (simp add: overlap_item_def hit_item_notin after_hits_none)
qed

lemma bricks_wf_after_hits:
  assumes "bricks_wf g"
  shows "bricks_wf (after_hits S g)"
proof -
  have d: "distinct (map item (bricks g))" using assms by (simp add: bricks_wf_def)
  have "item b' < next_id (canvas (after_hits S g)) \<and>
        ''brick'' \<in> set (gettags (canvas (after_hits S g)) (item b'))"
    if "b' \<in> set (bricks (after_hits S g))" for b'
  proof -
    from that have "b' \<in> set (hit_all S (bricks g))" by (simp add: after_hits_def)
    from hit_all_origin [OF this] obtain b where b: "b \<in> set (bricks g)" "item b = item b'"
      and s: "item b \<in> S \<longrightarrow> \<not> hits b - 1 \<le> 0" by blast
    from b assms have w: "item b < next_id (canvas g)"
      "''brick'' \<in> set (gettags (canvas g) (item b))"
      by (auto simp: bricks_wf_def list_all_iff)
    then obtain it where it: "items (canvas g) (item b) = Some it" "''brick'' \<in> set (tags it)"
      by (cases "items (canvas g) (item b)") (auto simp: gettags_def)
    have "items (canvas (after_hits S g)) (item b) = hit_entry S b (items (canvas g) (item b))"
      by (simp add: after_hits_def hit_items_brick [OF d b(1)])
    then have "''brick'' \<in> set (gettags (canvas (after_hits S g)) (item b))"
      using s it by (auto simp: gettags_def hit_entry_def)
    then show ?thesis using w b by (simp add: after_hits_def)
  qed
  then show ?thesis
    using d by (simp add: bricks_wf_def list_all_iff after_hits_def distinct_hit_all)
qed

lemma after_hits_insert:
  assumes "i \<notin> A" and "distinct (map item (bricks g))"
  shows "after_hits A (after_hits {i} g) = after_hits (insert i A) g"
proof -
  have "(- 1 :: real) ^ length (filter (\<lambda>b. item b \<in> A) (hit_all {i} (bricks g)))
          * ((- 1) ^ length (filter (\<lambda>b. item b \<in> {i}) (bricks g)) * vy (ball g))
        = (- 1) ^ length (filter (\<lambda>b. item b \<in> insert i A) (bricks g)) * vy (ball g)"
    by (simp add: count_insert [OF assms(1), symmetric] power_add)
  then show ?thesis
    using points_insert [OF assms(1), of "bricks g"]
    by (simp add: after_hits_def hit_all_insert [OF assms(1)] hit_items_insert [OF assms])
qed

lemma fold_overlap_item:
  assumes "distinct is" and "bricks_wf g"
  shows "fold overlap_item is g = after_hits (set is) g"
  using assms
proof (induction "is" arbitrary: g)
  case Nil
  have "after_hits {} g = g"
    by (simp add: after_hits_def hit_all_notin points_notin hit_items_notin)
  then show ?case by simp
next
  case (Cons i rest)
  have d: "distinct (map item (bricks g))" using Cons.prems(2) by (simp add: bricks_wf_def)
  have "fold overlap_item (i # rest) g = fold overlap_item rest (after_hits {i} g)"
    by (simp add: overlap_item_eq [OF Cons.prems(2)])
  also have "\<dots> = after_hits (set rest) (after_hits {i} g)"
    using Cons.prems by (intro Cons.IH bricks_wf_after_hits) simp_all
  also have "\<dots> = after_hits (set (i # rest)) g"
    using Cons.prems(1) by (simp add: after_hits_insert [OF _ d])
  finally show ?case .
qed


lemma overlaps_Nil [simp]: "\<not> overlaps x1 y1 x2 y2 []"
  by (simp add: overlaps_def)

lemma find_overlapping_iff:
  "i \<in> set (find_overlapping cv x1 y1 x2 y2) \<longleftrightarrow>
     i < next_id cv \<and> overlaps x1 y1 x2 y2 (coords cv i)"
  by (auto simp: find_overlapping_def coords_def split: option.splits)

lemma distinct_find_overlapping: "distinct (find_overlapping cv x1 y1 x2 y2)"
  by (simp add: find_overlapping_def)

lemma after_hits_cong:
  assumes "\<forall>b \<in> set (bricks g). item b \<in> A \<longleftrightarrow> item b \<in> B"
  shows "after_hits A g = after_hits B g"
  using hit_all_cong [OF assms] points_cong [OF assms] hit_items_cong [OF assms]
    filter_item_cong [OF assms]
  by (simp add: after_hits_def)

lemma points_count:
  "points S bs =
     10 * int (length (filter (\<lambda>b. item b \<in> S \<and> hits b - 1 \<le> 0) bs)) +
     5 * int (length (filter (\<lambda>b. item b \<in> S \<and> \<not> hits b - 1 \<le> 0) bs))"
  by (induction bs) auto

lemma brick_collision_eq:
  assumes "bricks_wf g"
  shows "brick_collision bb g = after_hits (overlapping_bricks bb g) g"
proof -
  obtain bx1 by1 bx2 by2 where bb: "bb = (bx1, by1, bx2, by2)" by (cases bb) auto
  have "brick_collision bb g = after_hits (set (find_overlapping (canvas g) bx1 by1 bx2 by2)) g"
    by (simp add: brick_collision_def bb fold_overlap_item [OF distinct_find_overlapping assms])
  also have "\<dots> = after_hits (overlapping_bricks bb g) g"
  proof (rule after_hits_cong, rule ballI)
    fix b assume b: "b \<in> set (bricks g)"
    then have "item b < next_id (canvas g)"
      using assms by (simp add: bricks_wf_def list_all_iff)
    then have "item b \<in> set (find_overlapping (canvas g) bx1 by1 bx2 by2)
                 \<longleftrightarrow> overlaps bx1 by1 bx2 by2 (coords (canvas g) (item b))"
      by (simp add: find_overlapping_iff)
    also have "\<dots> \<longleftrightarrow> item b \<in> overlapping_bricks bb g"
      using b by (auto simp: overlapping_bricks_def bb)
    finally show "item b \<in> set (find_overlapping (canvas g) bx1 by1 bx2 by2)
                 \<longleftrightarrow> item b \<in> overlapping_bricks bb g" .
  qed
  finally show ?thesis .
qed

text \<open>
  C2. In a game whose bricks each have their own item, handed out by the canvas and tagged
  \<open>brick\<close>, the brick block hits every brick whose box overlaps the ball's box, each once:
  the bricks afterwards are \<open>hit_all\<close> of them (a brick whose count reaches 0 or less is
  gone, another has its count one lower), the canvas entry of every brick is \<open>hit_entry\<close>
  of it (deleted, or filled with the colour of the new count), the score has grown by 10
  for each brick destroyed and 5 for each survivor, and \<open>vy\<close> has been negated once for each
  of these bricks.
\<close>

theorem brick_collision_hits_every_overlap:
  assumes "bricks_wf g"
  shows "brick_collision bb g = after_hits (overlapping_bricks bb g) g \<and>
         bricks (brick_collision bb g) = hit_all (overlapping_bricks bb g) (bricks g) \<and>
         (\<forall>b \<in> set (bricks g).
            items (canvas (brick_collision bb g)) (item b)
              = hit_entry (overlapping_bricks bb g) b (items (canvas g) (item b))) \<and>
         score (brick_collision bb g) =
           score g
           + 10 * int (length (filter (\<lambda>b. item b \<in> overlapping_bricks bb g \<and> hits b - 1 \<le> 0)
                                 (bricks g)))
           + 5 * int (length (filter (\<lambda>b. item b \<in> overlapping_bricks bb g \<and> \<not> hits b - 1 \<le> 0)
                                 (bricks g))) \<and>
         vy (ball (brick_collision bb g)) =
           (- 1) ^ length (filter (\<lambda>b. item b \<in> overlapping_bricks bb g) (bricks g))
             * vy (ball g) \<and>
         vx (ball (brick_collision bb g)) = vx (ball g)"
proof -
  have d: "distinct (map item (bricks g))" using assms by (simp add: bricks_wf_def)
  note e = brick_collision_eq [OF assms, of bb]
  have "\<forall>b \<in> set (bricks g).
            items (canvas (brick_collision bb g)) (item b)
              = hit_entry (overlapping_bricks bb g) b (items (canvas g) (item b))"
    by (simp add: e after_hits_def hit_items_brick [OF d])
  moreover have "score (brick_collision bb g) =
           score g
           + 10 * int (length (filter (\<lambda>b. item b \<in> overlapping_bricks bb g \<and> hits b - 1 \<le> 0)
                                 (bricks g)))
           + 5 * int (length (filter (\<lambda>b. item b \<in> overlapping_bricks bb g \<and> \<not> hits b - 1 \<le> 0)
                                 (bricks g)))"
    using points_count [of "overlapping_bricks bb g" "bricks g"]
    by (simp add: e after_hits_def)
  ultimately show ?thesis
    by (simp add: e after_hits_def)
qed


theorem brick_collision_hits_every_overlap_witness:
  "bricks_wf (two_brick_game (135, 75) (3, - 4) 3) \<and>
   overlapping_bricks (127, 67, 143, 83) (two_brick_game (135, 75) (3, - 4) 3) = {3, 4} \<and>
   bricks (brick_collision (127, 67, 143, 83) (two_brick_game (135, 75) (3, - 4) 3))
     = [\<lparr>item = 4, bwidth = 75, bheight = 20, hits = 2\<rparr>] \<and>
   items (canvas (brick_collision (127, 67, 143, 83) (two_brick_game (135, 75) (3, - 4) 3))) 3
     = None \<and>
   items (canvas (brick_collision (127, 67, 143, 83) (two_brick_game (135, 75) (3, - 4) 3))) 4
     = Some \<lparr>tags = [''brick''], xy = [135, 50, 210, 70], fill = ''#ED639E''\<rparr> \<and>
   score (brick_collision (127, 67, 143, 83) (two_brick_game (135, 75) (3, - 4) 3)) = 15 \<and>
   vy (ball (brick_collision (127, 67, 143, 83) (two_brick_game (135, 75) (3, - 4) 3))) = - 4 \<and>
   vx (ball (brick_collision (127, 67, 143, 83) (two_brick_game (135, 75) (3, - 4) 3))) = 3"
proof -
  let ?g = "two_brick_game (135, 75) (3, - 4) 3"
  let ?bb = "(127, 67, 143, 83) :: real \<times> real \<times> real \<times> real"
  have w: "bricks_wf ?g"
    by (simp add: bricks_wf_def two_brick_game_def gettags_def)
  have o: "overlapping_bricks ?bb ?g = {3, 4}"
    by (simp add: overlapping_bricks_def two_brick_game_def coords_def overlaps_def insert_commute)
  have b: "bricks ?g = [\<lparr>item = 3, bwidth = 75, bheight = 20, hits = 1\<rparr>,
                       \<lparr>item = 4, bwidth = 75, bheight = 20, hits = 3\<rparr>]"
    "score ?g = 0" "vy (ball ?g) = - 4" "vx (ball ?g) = 3"
    "items (canvas ?g) 3 = Some \<lparr>tags = [''brick''], xy = [60, 50, 135, 70], fill = ''#4535AA''\<rparr>"
    "items (canvas ?g) 4 = Some \<lparr>tags = [''brick''], xy = [135, 50, 210, 70], fill = ''#8FE1A2''\<rparr>"
    by (simp_all add: two_brick_game_def)
  note t = brick_collision_hits_every_overlap [OF w, of ?bb, THEN conjunct2]
  have b1: "bricks (brick_collision ?bb ?g) = [\<lparr>item = 4, bwidth = 75, bheight = 20, hits = 2\<rparr>]"
    using t by (simp add: o b)
  have i3: "items (canvas (brick_collision ?bb ?g)) 3 = None"
    using t b by (simp add: o hit_entry_def)
  have i4: "items (canvas (brick_collision ?bb ?g)) 4
              = Some \<lparr>tags = [''brick''], xy = [135, 50, 210, 70], fill = ''#ED639E''\<rparr>"
    using t b by (simp add: o hit_entry_def COLORS_get_def COLORS_def)
  have s: "score (brick_collision ?bb ?g) = 15"
    "vy (ball (brick_collision ?bb ?g)) = - 4" "vx (ball (brick_collision ?bb ?g)) = 3"
    using t by (simp_all add: o b)
  show ?thesis using w o b1 i3 i4 s by simp
qed

subsection \<open>Items the canvas operations leave alone\<close>

lemma items_create_other:
  "i \<noteq> next_id cv \<Longrightarrow> items (snd (create cs f tg cv)) i = items cv i"
  by (simp add: create_def)

lemma next_id_create: "next_id (snd (create cs f tg cv)) = next_id cv + 1"
  by (simp add: create_def)

lemma fst_create: "fst (create cs f tg cv) = next_id cv"
  by (simp add: create_def)

lemma items_create_same:
  "items (snd (create cs f tg cv)) (next_id cv) = Some \<lparr>tags = tg, xy = cs, fill = f\<rparr>"
  by (simp add: create_def)

lemma items_delete: "items (delete j cv) i = (if i = j then None else items cv i)"
  by (simp add: delete_def)

lemma next_id_delete: "next_id (delete j cv) = next_id cv"
  by (simp add: delete_def)

lemma items_set_coords:
  "items (set_coords j cs cv) i =
     (if i = j then map_option (\<lambda>it. it\<lparr>xy := cs\<rparr>) (items cv j) else items cv i)"
  by (simp add: set_coords_def split: option.splits)

lemma next_id_set_coords: "next_id (set_coords j cs cv) = next_id cv"
  by (simp add: set_coords_def split: option.splits)

lemma coords_cong: "items cv' i = items cv i \<Longrightarrow> coords cv' i = coords cv i"
  by (simp add: coords_def)

lemma gettags_cong: "items cv' i = items cv i \<Longrightarrow> gettags cv' i = gettags cv i"
  by (simp add: gettags_def)

lemma gettags_set_coords: "gettags (set_coords j cs cv) i = gettags cv i"
  by (simp add: gettags_def items_set_coords split: option.splits)

lemma canvas_ok_create: "canvas_ok cv \<Longrightarrow> canvas_ok (snd (create cs f tg cv))"
  by (simp add: canvas_ok_def create_def)

lemma canvas_ok_delete: "canvas_ok cv \<Longrightarrow> canvas_ok (delete j cv)"
  by (simp add: canvas_ok_def delete_def)

lemma canvas_ok_set_coords: "canvas_ok cv \<Longrightarrow> canvas_ok (set_coords j cs cv)"
  by (auto simp: canvas_ok_def items_set_coords next_id_set_coords)

lemma canvas_ok_lt: "canvas_ok cv \<Longrightarrow> items cv i \<noteq> None \<Longrightarrow> i < next_id cv"
  unfolding canvas_ok_def by (meson not_le)

lemma coords_lt: "canvas_ok cv \<Longrightarrow> coords cv i = x # xs \<Longrightarrow> i < next_id cv"
  by (rule canvas_ok_lt) (auto simp: coords_def split: option.splits)

lemma paddle_ok_cong:
  "items cv' (item p) = items cv (item p) \<Longrightarrow> paddle_ok cv p \<Longrightarrow> paddle_ok cv' p"
  using coords_cong [of cv' "item p" cv] gettags_cong [of cv' "item p" cv]
  by (simp add: paddle_ok_def)

lemma ball_ok_cong:
  "items cv' (item b) = items cv (item b) \<Longrightarrow> ball_ok cv b \<Longrightarrow> ball_ok cv' b"
  using coords_cong [of cv' "item b" cv] gettags_cong [of cv' "item b" cv]
  by (simp add: ball_ok_def)

lemma bricks_wf_cong:
  assumes "bricks_wf g" and "bricks g' = bricks g" and "next_id (canvas g) \<le> next_id (canvas g')"
    and "\<forall>b \<in> set (bricks g). items (canvas g') (item b) = items (canvas g) (item b)"
  shows "bricks_wf g'"
proof -
  have "item b < next_id (canvas g') \<and> ''brick'' \<in> set (gettags (canvas g') (item b))"
    if "b \<in> set (bricks g)" for b
    using that assms gettags_cong [of "canvas g'" "item b" "canvas g"]
    by (auto simp: bricks_wf_def list_all_iff)
  then show ?thesis using assms(1,2) by (simp add: bricks_wf_def list_all_iff)
qed

lemma paddle_lt: "canvas_ok cv \<Longrightarrow> paddle_ok cv p \<Longrightarrow> item p < next_id cv"
  by (auto simp: paddle_ok_def dest: coords_lt)

lemma ball_lt: "canvas_ok cv \<Longrightarrow> ball_ok cv b \<Longrightarrow> item b < next_id cv"
  by (auto simp: ball_ok_def dest: coords_lt)

lemma brick_not_paddle:
  assumes "bricks_wf g" and "paddle_ok (canvas g) (paddle g)" and "b \<in> set (bricks g)"
  shows "item b \<noteq> item (paddle g)"
proof -
  have "''brick'' \<in> set (gettags (canvas g) (item b))"
    using assms(1,3) by (simp add: bricks_wf_def list_all_iff)
  moreover have "''brick'' \<notin> set (gettags (canvas g) (item (paddle g)))"
    using assms(2) by (simp add: paddle_ok_def)
  ultimately show ?thesis by metis
qed

lemma brick_not_ball:
  assumes "bricks_wf g" and "ball_ok (canvas g) (ball g)" and "b \<in> set (bricks g)"
  shows "item b \<noteq> item (ball g)"
proof -
  have "''brick'' \<in> set (gettags (canvas g) (item b))"
    using assms(1,3) by (simp add: bricks_wf_def list_all_iff)
  moreover have "''brick'' \<notin> set (gettags (canvas g) (item (ball g)))"
    using assms(2) by (simp add: ball_ok_def)
  ultimately show ?thesis by metis
qed

lemma brick_not_instr:
  assumes "bricks_wf g" and "''brick'' \<notin> set (gettags (canvas g) (instr g))"
    and "b \<in> set (bricks g)"
  shows "item b \<noteq> instr g"
proof -
  have "''brick'' \<in> set (gettags (canvas g) (item b))"
    using assms(1,3) by (simp add: bricks_wf_def list_all_iff)
  with assms(2) show ?thesis by metis
qed

lemma game_invD:
  assumes "game_inv g"
  shows "width g = 720" "height g = 520" "canvas_ok (canvas g)" "bricks_wf g"
    "paddle_ok (canvas g) (paddle g)" "ball_ok (canvas g) (ball g)"
    "item (paddle g) \<noteq> item (ball g)" "''brick'' \<notin> set (gettags (canvas g) (instr g))"
    "instr g \<noteq> item (paddle g)" "instr g \<noteq> item (ball g)" "instr g < next_id (canvas g)"
    "0 \<le> score g" "5 dvd score g"
  using assms unfolding game_inv_def by blast+

lemma game_invI:
  assumes "width g = 720" "height g = 520" "canvas_ok (canvas g)" "bricks_wf g"
    "paddle_ok (canvas g) (paddle g)" "ball_ok (canvas g) (ball g)"
    "item (paddle g) \<noteq> item (ball g)" "''brick'' \<notin> set (gettags (canvas g) (instr g))"
    "instr g \<noteq> item (paddle g)" "instr g \<noteq> item (ball g)" "instr g < next_id (canvas g)"
    "0 \<le> score g" "5 dvd score g"
  shows "game_inv g"
  using assms unfolding game_inv_def by blast

text \<open>A change of the canvas that keeps the items of the game objects keeps the invariant.\<close>

lemma game_inv_canvas:
  assumes "game_inv g" and "canvas_ok cv'" and "next_id (canvas g) \<le> next_id cv'"
    and "items cv' (item (paddle g)) = items (canvas g) (item (paddle g))"
    and "items cv' (item (ball g)) = items (canvas g) (item (ball g))"
    and "items cv' (instr g) = items (canvas g) (instr g)"
    and "\<forall>b \<in> set (bricks g). items cv' (item b) = items (canvas g) (item b)"
  shows "game_inv (g\<lparr>canvas := cv'\<rparr>)"
proof -
  let ?g = "g\<lparr>canvas := cv'\<rparr>"
  note d = game_invD [OF assms(1)]
  have f: "canvas ?g = cv'" "bricks ?g = bricks g" "paddle ?g = paddle g" "ball ?g = ball g"
    "instr ?g = instr g" "width ?g = width g" "height ?g = height g" "score ?g = score g"
    by simp_all
  have 1: "bricks_wf ?g"
  proof (rule bricks_wf_cong [OF d(4)])
    show "bricks ?g = bricks g" by simp
    show "next_id (canvas g) \<le> next_id (canvas ?g)" using assms(3) by simp
    show "\<forall>b \<in> set (bricks g). items (canvas ?g) (item b) = items (canvas g) (item b)"
      using assms(7) by simp
  qed
  have 2: "paddle_ok cv' (paddle g)" by (rule paddle_ok_cong [OF assms(4) d(5)])
  have 3: "ball_ok cv' (ball g)" by (rule ball_ok_cong [OF assms(5) d(6)])
  have 4: "''brick'' \<notin> set (gettags cv' (instr g))"
    unfolding gettags_cong [OF assms(6)] by (rule d(8))
  have 5: "instr g < next_id cv'" using d(11) assms(3) by (rule less_le_trans)
  show ?thesis
    by (rule game_invI) (simp_all only: f d 1 2 3 4 5 assms(2) not_False_eq_True)
qed

end
